theory Spec2Isabelle
  imports Complex_Main
begin

section \<open>JavaScript numbers\<close>

text \<open>
  A JavaScript \<^verbatim>\<open>number\<close> is an IEEE double. The model keeps the three special values
  apart from the finite ones, because the code divides by \<^verbatim>\<open>services.length\<close> without a
  guard and \<^verbatim>\<open>0 / 0\<close> is \<^verbatim>\<open>NaN\<close>. The sign of zero is not modelled.
\<close>

datatype jsnum = Fin real | PosInf | NegInf | NaN

text \<open>
  The result of an arithmetic operation on finite doubles is the exact result rounded to a
  double (to the nearest one, to an infinity on overflow), and a decimal literal such as
  \<^verbatim>\<open>0.03\<close> denotes the double nearest to it. The rounding is a parameter \<open>rd\<close> of every
  function that computes: a statement made for every \<open>rd\<close> holds of the rounding of
  doubles. Integer literals and lengths are doubles as they stand.
\<close>

type_synonym rounding = "real \<Rightarrow> jsnum"

text \<open>The rounding that rounds nothing: exact arithmetic.\<close>

definition exact_rounding :: rounding where
  "exact_rounding x = Fin x"

fun js_add :: "rounding \<Rightarrow> jsnum \<Rightarrow> jsnum \<Rightarrow> jsnum" where
  "js_add rd NaN _ = NaN"
| "js_add rd _ NaN = NaN"
| "js_add rd (Fin a) (Fin b) = rd (a + b)"
| "js_add rd PosInf NegInf = NaN"
| "js_add rd NegInf PosInf = NaN"
| "js_add rd PosInf _ = PosInf"
| "js_add rd _ PosInf = PosInf"
| "js_add rd NegInf _ = NegInf"
| "js_add rd _ NegInf = NegInf"

fun js_neg :: "jsnum \<Rightarrow> jsnum" where
  "js_neg NaN = NaN"
| "js_neg (Fin a) = Fin (- a)"
| "js_neg PosInf = NegInf"
| "js_neg NegInf = PosInf"

definition js_sub :: "rounding \<Rightarrow> jsnum \<Rightarrow> jsnum \<Rightarrow> jsnum" where
  "js_sub rd a b = js_add rd a (js_neg b)"

fun js_mul :: "rounding \<Rightarrow> jsnum \<Rightarrow> jsnum \<Rightarrow> jsnum" where
  "js_mul rd NaN _ = NaN"
| "js_mul rd _ NaN = NaN"
| "js_mul rd (Fin a) (Fin b) = rd (a * b)"
| "js_mul rd PosInf (Fin b) = (if b = 0 then NaN else if 0 < b then PosInf else NegInf)"
| "js_mul rd NegInf (Fin b) = (if b = 0 then NaN else if 0 < b then NegInf else PosInf)"
| "js_mul rd (Fin a) PosInf = (if a = 0 then NaN else if 0 < a then PosInf else NegInf)"
| "js_mul rd (Fin a) NegInf = (if a = 0 then NaN else if 0 < a then NegInf else PosInf)"
| "js_mul rd PosInf PosInf = PosInf"
| "js_mul rd NegInf NegInf = PosInf"
| "js_mul rd PosInf NegInf = NegInf"
| "js_mul rd NegInf PosInf = NegInf"

text \<open>Division; a zero divisor is taken as \<^verbatim>\<open>+0\<close> (every divisor in the code is a length).\<close>

fun js_div :: "rounding \<Rightarrow> jsnum \<Rightarrow> jsnum \<Rightarrow> jsnum" where
  "js_div rd NaN _ = NaN"
| "js_div rd _ NaN = NaN"
| "js_div rd (Fin a) (Fin b) =
     (if b = 0 then (if a = 0 then NaN else if 0 < a then PosInf else NegInf)
      else rd (a / b))"
| "js_div rd (Fin a) PosInf = Fin 0"
| "js_div rd (Fin a) NegInf = Fin 0"
| "js_div rd PosInf (Fin b) = (if 0 \<le> b then PosInf else NegInf)"
| "js_div rd NegInf (Fin b) = (if 0 \<le> b then NegInf else PosInf)"
| "js_div rd PosInf _ = NaN"
| "js_div rd NegInf _ = NaN"

text \<open>The comparisons \<^verbatim>\<open>a > b\<close> and \<^verbatim>\<open>a < b\<close>: false whenever an operand is \<^verbatim>\<open>NaN\<close>.\<close>

fun js_gt :: "jsnum \<Rightarrow> jsnum \<Rightarrow> bool" where
  "js_gt NaN _ = False"
| "js_gt _ NaN = False"
| "js_gt (Fin a) (Fin b) = (b < a)"
| "js_gt PosInf PosInf = False"
| "js_gt PosInf _ = True"
| "js_gt _ PosInf = False"
| "js_gt NegInf _ = False"
| "js_gt _ NegInf = True"

definition js_lt :: "jsnum \<Rightarrow> jsnum \<Rightarrow> bool" where
  "js_lt a b = js_gt b a"

text \<open>The order of the numbers, \<^verbatim>\<open>a <= b\<close>; it serves to say that a rounding preserves order.\<close>

fun js_le :: "jsnum \<Rightarrow> jsnum \<Rightarrow> bool" where
  "js_le NaN _ = False"
| "js_le _ NaN = False"
| "js_le (Fin a) (Fin b) = (a \<le> b)"
| "js_le NegInf _ = True"
| "js_le _ PosInf = True"
| "js_le PosInf _ = False"
| "js_le _ NegInf = False"

text \<open>\<^verbatim>\<open>Math.max(a, b)\<close>\<close>

definition js_max :: "jsnum \<Rightarrow> jsnum \<Rightarrow> jsnum" where
  "js_max a b = (if a = NaN \<or> b = NaN then NaN else if js_gt a b then a else b)"

text \<open>Truthiness of a number, as \<^verbatim>\<open>x || d\<close> tests it: \<^verbatim>\<open>0\<close> and \<^verbatim>\<open>NaN\<close> are falsy.\<close>

fun js_truthy :: "jsnum \<Rightarrow> bool" where
  "js_truthy NaN = False"
| "js_truthy (Fin a) = (a \<noteq> 0)"
| "js_truthy _ = True"

definition js_len :: "'a list \<Rightarrow> jsnum" where
  "js_len xs = Fin (real (length xs))"

fun is_fin :: "jsnum \<Rightarrow> bool" where
  "is_fin (Fin _) = True"
| "is_fin _ = False"

fun fin_val :: "jsnum \<Rightarrow> real" where
  "fin_val (Fin a) = a"
| "fin_val _ = 0"

text \<open>\<^verbatim>\<open>Math.random()\<close> returns a number in the half-open unit interval.\<close>

typedef unit_draw = "{r :: real. 0 \<le> r \<and> r < 1}"
  by (rule exI [of _ 0]) simp

setup_lifting type_definition_unit_draw

lift_definition draw_val :: "unit_draw \<Rightarrow> real" is "\<lambda>r. r" .

lift_definition draw_of :: "real \<Rightarrow> unit_draw" is "\<lambda>r. if 0 \<le> r \<and> r < 1 then r else 0"
  by simp

text \<open>
  The index \<^verbatim>\<open>Math.floor(Math.random() * xs.length)\<close> of \<^verbatim>\<open>xs[...]\<close>, for an array of
  \<open>n\<close> elements. A product that is not a finite number from zero up selects no element;
  it is given the index \<open>n\<close>, outside the array.
\<close>

definition random_index :: "rounding \<Rightarrow> unit_draw \<Rightarrow> nat \<Rightarrow> nat" where
  "random_index rd d n =
     (case js_mul rd (Fin (draw_val d)) (Fin (real n)) of
        Fin v \<Rightarrow> if 0 \<le> v then nat \<lfloor>v\<rfloor> else n
      | _ \<Rightarrow> n)"

section \<open>Sample buffer (App.tsx, generateMetricsData)\<close>

record MetricData =
  timestamp :: string
  mvalue :: jsnum

type_synonym metrics_state = "string \<rightharpoonup> MetricData list"

definition metricTypes :: "string list" where
  "metricTypes = [''requestRate'', ''responseTime'', ''errorRate'', ''memoryUsage'', ''cpuUsage'']"

text \<open>The \<^verbatim>\<open>switch\<close> giving \<^verbatim>\<open>baseValue\<close> and \<^verbatim>\<open>variance\<close>.\<close>

definition base_variance :: "rounding \<Rightarrow> string \<Rightarrow> jsnum \<times> jsnum" where
  "base_variance rd metricType =
     (if metricType = ''requestRate'' then (Fin 150, Fin 30)
      else if metricType = ''responseTime'' then (Fin 50, Fin 20)
      else if metricType = ''errorRate'' then (rd 0.02, rd 0.01)
      else if metricType = ''memoryUsage'' then (Fin 65, Fin 10)
      else if metricType = ''cpuUsage'' then (Fin 25, Fin 15)
      else (Fin 50, Fin 10))"

text \<open>\<^verbatim>\<open>xs.slice(-n)\<close>: the last \<open>n\<close> elements, all of them when there are fewer.\<close>

definition slice_last :: "nat \<Rightarrow> 'a list \<Rightarrow> 'a list" where
  "slice_last n xs = drop (length xs - n) xs"

text \<open>
  One tick of the buffer: the time of the tick and the random draw of each metric type.
\<close>

record tick =
  now_iso :: string
  rnd :: "string \<Rightarrow> unit_draw"

text \<open>
  The pushed sample, with value
  \<^verbatim>\<open>Math.max(0, baseValue + Math.random() * variance - variance / 2)\<close>.
\<close>

definition new_point :: "rounding \<Rightarrow> tick \<Rightarrow> string \<Rightarrow> MetricData" where
  "new_point rd tk metricType =
     (let (baseValue, variance) = base_variance rd metricType
      in \<lparr>timestamp = now_iso tk,
          mvalue =
            js_max (Fin 0)
              (js_sub rd
                 (js_add rd baseValue (js_mul rd (Fin (draw_val (rnd tk metricType))) variance))
                 (js_div rd variance (Fin 2)))\<rparr>)"

text \<open>The body of the \<^verbatim>\<open>forEach\<close>: create the series if absent, push, keep the last 20.\<close>

definition update_metric :: "rounding \<Rightarrow> tick \<Rightarrow> metrics_state \<Rightarrow> string \<Rightarrow> metrics_state" where
  "update_metric rd tk newMetrics metricType =
     (let series = (case newMetrics metricType of None \<Rightarrow> [] | Some s \<Rightarrow> s);
          pushed = series @ [new_point rd tk metricType]
      in newMetrics(metricType \<mapsto> (if 20 < length pushed then slice_last 20 pushed else pushed)))"

text \<open>
  \<^verbatim>\<open>generateMetricsData\<close> reads the variable \<^verbatim>\<open>metrics\<close> of its closure and hands its
  result to \<^verbatim>\<open>setMetrics\<close>; here the value read is the argument and the value set is the
  result.
\<close>

definition generateMetricsData :: "rounding \<Rightarrow> metrics_state \<Rightarrow> tick \<Rightarrow> metrics_state" where
  "generateMetricsData rd metrics tk = foldl (update_metric rd tk) metrics metricTypes"

definition series_of :: "metrics_state \<Rightarrow> string \<Rightarrow> MetricData list" where
  "series_of m metricType = (case m metricType of None \<Rightarrow> [] | Some s \<Rightarrow> s)"

text \<open>
  The component. The state starts as \<^verbatim>\<open>useState({})\<close>. \<^verbatim>\<open>generateMetricsData\<close> is
  created inside \<^verbatim>\<open>useEffect(..., [])\<close>, which runs once, after the first render; it is
  called there and then by \<^verbatim>\<open>setInterval\<close>. The \<^verbatim>\<open>metrics\<close> of its closure is therefore
  the value of the first render, the empty object, at every tick, whatever \<^verbatim>\<open>setMetrics\<close>
  has stored since. The state after a tick is what that tick handed to \<^verbatim>\<open>setMetrics\<close>.
\<close>

definition metrics_after_ticks :: "rounding \<Rightarrow> tick list \<Rightarrow> metrics_state" where
  "metrics_after_ticks rd tks =
     foldl (\<lambda>state tk. generateMetricsData rd Map.empty tk) Map.empty tks"

section \<open>Service poller (App.tsx, fetchServiceHealth)\<close>

datatype service_status = StHealthy | StWarning | StError

record ServiceMetrics =
  cpu :: jsnum
  memory :: jsnum
  requests_per_second :: jsnum
  active_connections :: jsnum

record ServiceStatus =
  name :: string
  status :: service_status
  url :: string
  uptime :: string
  responseTime :: jsnum
  errorRate :: jsnum
  description :: string
  metrics :: ServiceMetrics

record service_config =
  cfg_name :: string
  cfg_url :: string
  cfg_description :: string

definition serviceConfigs :: "service_config list" where
  "serviceConfigs =
     [\<lparr>cfg_name = ''Payments Service'', cfg_url = ''http://localhost:8001'',
       cfg_description = ''Handles instant payments and transactions''\<rparr>,
      \<lparr>cfg_name = ''Investments Service'', cfg_url = ''http://localhost:8002'',
       cfg_description = ''Personalized investment tracking and portfolio management''\<rparr>,
      \<lparr>cfg_name = ''Accounts Service'', cfg_url = ''http://localhost:8003'',
       cfg_description = ''Automated account services and customer management''\<rparr>]"

text \<open>
  The body of a health response, \<^verbatim>\<open>response.data\<close>: every field may be absent.
\<close>

record health_payload =
  p_status :: "service_status option"
  p_uptime :: "string option"
  p_responseTime :: "jsnum option"
  p_errorRate :: "jsnum option"
  p_metrics :: "ServiceMetrics option"

text \<open>
  What one \<^verbatim>\<open>await axios.get\<close> does: it throws (network error, timeout, status outside
  2xx), or it returns a response whose body is an object or is missing. Reading a field
  of a missing body throws inside the same \<^verbatim>\<open>try\<close>. Every request is taken to
  settle; the call sets no timeout of its own.
\<close>

datatype fetch_outcome = Rejected | Resolved "health_payload option"

definition zero_metrics :: ServiceMetrics where
  "zero_metrics = \<lparr>cpu = Fin 0, memory = Fin 0, requests_per_second = Fin 0,
                    active_connections = Fin 0\<rparr>"

text \<open>\<^verbatim>\<open>x || d\<close> on an optional number and on an optional string.\<close>

definition num_or :: "jsnum option \<Rightarrow> jsnum \<Rightarrow> jsnum" where
  "num_or x d = (case x of None \<Rightarrow> d | Some v \<Rightarrow> if js_truthy v then v else d)"

definition str_or :: "string option \<Rightarrow> string \<Rightarrow> string" where
  "str_or x d = (case x of None \<Rightarrow> d | Some v \<Rightarrow> if v = [] then d else v)"

text \<open>The record pushed in the \<^verbatim>\<open>try\<close> branch.\<close>

definition normalize :: "service_config \<Rightarrow> health_payload \<Rightarrow> ServiceStatus" where
  "normalize config data =
     \<lparr>name = cfg_name config,
      status = (case p_status data of None \<Rightarrow> StHealthy | Some st \<Rightarrow> st),
      url = cfg_url config,
      uptime = str_or (p_uptime data) ''99.99%'',
      responseTime = num_or (p_responseTime data) (Fin 0),
      errorRate = num_or (p_errorRate data) (Fin 0),
      description = cfg_description config,
      metrics = (case p_metrics data of None \<Rightarrow> zero_metrics | Some m \<Rightarrow> m)\<rparr>"

text \<open>The record pushed in the \<^verbatim>\<open>catch\<close> branch.\<close>

definition error_record :: "service_config \<Rightarrow> ServiceStatus" where
  "error_record config =
     \<lparr>name = cfg_name config,
      status = StError,
      url = cfg_url config,
      uptime = ''N/A'',
      responseTime = Fin 0,
      errorRate = Fin 1,
      description = cfg_description config,
      metrics = zero_metrics\<rparr>"

definition poll_one :: "service_config \<Rightarrow> fetch_outcome \<Rightarrow> ServiceStatus" where
  "poll_one config outcome =
     (case outcome of
        Rejected \<Rightarrow> error_record config
      | Resolved None \<Rightarrow> error_record config
      | Resolved (Some data) \<Rightarrow> normalize config data)"

text \<open>
  The \<^verbatim>\<open>for (const config of serviceConfigs)\<close> loop. \<open>get k\<close> is the outcome of the
  \<open>k\<close>-th request of the cycle; \<open>newServices\<close> is the array built so far.
\<close>

fun poll_loop ::
  "(nat \<Rightarrow> fetch_outcome) \<Rightarrow> nat \<Rightarrow> service_config list \<Rightarrow> ServiceStatus list \<Rightarrow> ServiceStatus list"
where
  "poll_loop get k [] newServices = newServices"
| "poll_loop get k (config # rest) newServices =
     poll_loop get (Suc k) rest (newServices @ [poll_one config (get k)])"

definition fetchServiceHealth_services ::
  "(nat \<Rightarrow> fetch_outcome) \<Rightarrow> service_config list \<Rightarrow> ServiceStatus list" where
  "fetchServiceHealth_services get configs = poll_loop get 0 configs []"

section \<open>Aggregator (App.tsx, fetchServiceHealth)\<close>

record SystemOverview =
  totalRequests :: jsnum
  activeConnections :: jsnum
  totalAccounts :: jsnum
  portfolioValue :: jsnum
  paymentsProcessed :: jsnum
  overviewErrorRate :: jsnum

text \<open>\<^verbatim>\<open>newServices.find(s => s.name === n)?.metrics.requests_per_second ?? 0\<close>\<close>

definition rps_of_named :: "string \<Rightarrow> ServiceStatus list \<Rightarrow> jsnum" where
  "rps_of_named n newServices =
     (case find (\<lambda>s. name s = n) newServices of
        None \<Rightarrow> Fin 0
      | Some s \<Rightarrow> requests_per_second (metrics s))"

definition fetchServiceHealth_overview :: "rounding \<Rightarrow> ServiceStatus list \<Rightarrow> SystemOverview" where
  "fetchServiceHealth_overview rd newServices =
     \<lparr>totalRequests =
        foldl (\<lambda>acc s. js_add rd acc (js_mul rd (requests_per_second (metrics s)) (Fin 60)))
          (Fin 0) newServices,
      activeConnections =
        foldl (\<lambda>acc s. js_add rd acc (active_connections (metrics s))) (Fin 0) newServices,
      totalAccounts = rps_of_named ''Accounts Service'' newServices,
      portfolioValue = rps_of_named ''Investments Service'' newServices,
      paymentsProcessed = rps_of_named ''Payments Service'' newServices,
      overviewErrorRate =
        js_div rd (foldl (\<lambda>acc s. js_add rd acc (errorRate s)) (Fin 0) newServices)
          (js_len newServices)\<rparr>"

definition fetchServiceHealth ::
  "rounding \<Rightarrow> (nat \<Rightarrow> fetch_outcome) \<Rightarrow> service_config list \<Rightarrow> ServiceStatus list \<times> SystemOverview"
where
  "fetchServiceHealth rd get configs =
     (let newServices = fetchServiceHealth_services get configs
      in (newServices, fetchServiceHealth_overview rd newServices))"

section \<open>Rule engine (AIAnalytics.tsx, generateAIInsights)\<close>

datatype insight_type = Prediction | Anomaly | Capacity | Health

datatype severity_level = Low | Medium | High

text \<open>
  The \<^verbatim>\<open>description\<close> of an insight is a fixed string, except in the health rule, whose
  template prints \<^verbatim>\<open>((1 - healthScore) * 100).toFixed(0)\<close>; the number is kept unformatted.
\<close>

datatype insight_description = Literal string | HealthRisk jsnum

text \<open>The optional \<^verbatim>\<open>data\<close> payload, one shape per rule, fields in source order.\<close>

datatype insight_data =
    PredictionData jsnum string "string list"
  | AnomalyData jsnum string string
  | CapacityData jsnum string string
  | HealthData jsnum severity_level "string list"
  | OptimalData jsnum "string list"

record AIInsight =
  itype :: insight_type
  title :: string
  idescription :: insight_description
  confidence :: jsnum
  severity :: severity_level
  recommendations :: "string list"
  idata :: insight_data

definition prediction_insight :: "rounding \<Rightarrow> AIInsight" where
  "prediction_insight rd =
     \<lparr>itype = Prediction,
      title = ''Performance Degradation Predicted'',
      idescription = Literal ''AI models predict a 15% increase in response times over the next hour based on current trends.'',
      confidence = rd 0.87,
      severity = Medium,
      recommendations =
        [''Consider preemptive scaling of high-load services'',
         ''Review database connection pools'',
         ''Monitor memory usage patterns''],
      idata = PredictionData (Fin 15) ''1 hour'' [''payments'', ''investments'']\<rparr>"

definition anomaly_insight :: "rounding \<Rightarrow> AIInsight" where
  "anomaly_insight rd =
     \<lparr>itype = Anomaly,
      title = ''Unusual Error Pattern Detected'',
      idescription = Literal ''Machine learning models detected anomalous error patterns in the last 20 minutes.'',
      confidence = rd 0.92,
      severity = High,
      recommendations =
        [''Investigate recent deployments'',
         ''Check external service dependencies'',
         ''Review error logs for common patterns''],
      idata = AnomalyData (rd 0.85) ''20 minutes'' ''spike''\<rparr>"

definition capacity_insight :: "rounding \<Rightarrow> AIInsight" where
  "capacity_insight rd =
     \<lparr>itype = Capacity,
      title = ''Capacity Scaling Recommended'',
      idescription = Literal ''Predictive models suggest scaling requirements will increase by 25% in the next 48 hours.'',
      confidence = rd 0.78,
      severity = Medium,
      recommendations =
        [''Prepare horizontal scaling for payments service'',
         ''Increase connection pool limits'',
         ''Consider load balancer optimization''],
      idata = CapacityData (Fin 25) ''48 hours'' ''connection_threshold''\<rparr>"

definition health_insight :: "rounding \<Rightarrow> jsnum \<Rightarrow> ServiceStatus list \<Rightarrow> AIInsight" where
  "health_insight rd healthScore services =
     \<lparr>itype = Health,
      title = ''System Health Risk Assessment'',
      idescription = HealthRisk (js_mul rd (js_sub rd (Fin 1) healthScore) (Fin 100)),
      confidence = rd 0.83,
      severity = (if js_lt healthScore (rd 0.7) then High else Medium),
      recommendations =
        [''Monitor warning services closely'',
         ''Prepare rollback procedures'',
         ''Increase monitoring frequency''],
      idata = HealthData healthScore (if js_lt healthScore (rd 0.7) then High else Medium)
                (map name (filter (\<lambda>s. status s \<noteq> StHealthy) services))\<rparr>"

definition optimal_insight :: "rounding \<Rightarrow> AIInsight" where
  "optimal_insight rd =
     \<lparr>itype = Health,
      title = ''System Operating Optimally'',
      idescription = Literal ''AI analysis shows all systems are performing within expected parameters with no predicted issues.'',
      confidence = rd 0.95,
      severity = Low,
      recommendations =
        [''Maintain current monitoring levels'',
         ''Continue regular health checks'',
         ''Consider performance optimization opportunities''],
      idata = OptimalData (rd 0.98) [''cache optimization'', ''query performance'']\<rparr>"

text \<open>The four quantities the rules test.\<close>

definition avgResponseTime :: "rounding \<Rightarrow> ServiceStatus list \<Rightarrow> jsnum" where
  "avgResponseTime rd services =
     js_div rd (foldl (\<lambda>sum s. js_add rd sum (responseTime s)) (Fin 0) services)
       (js_len services)"

definition avgErrorRate :: "rounding \<Rightarrow> ServiceStatus list \<Rightarrow> jsnum" where
  "avgErrorRate rd services =
     (let errorRates = map errorRate services
      in js_div rd (foldl (\<lambda>sum rate. js_add rd sum rate) (Fin 0) errorRates)
           (js_len errorRates))"

definition totalConnections :: "rounding \<Rightarrow> ServiceStatus list \<Rightarrow> jsnum" where
  "totalConnections rd services =
     foldl (\<lambda>sum s. js_add rd sum (active_connections (metrics s))) (Fin 0) services"

definition healthScore :: "rounding \<Rightarrow> ServiceStatus list \<Rightarrow> jsnum" where
  "healthScore rd services =
     (let healthyServices = length (filter (\<lambda>s. status s = StHealthy) services)
      in js_div rd (Fin (real healthyServices)) (js_len services))"

text \<open>
  \<^verbatim>\<open>generateAIInsights\<close>: every \<^verbatim>\<open>push\<close> appends to \<^verbatim>\<open>newInsights\<close>; the result is the
  array handed to \<^verbatim>\<open>setInsights\<close>.
\<close>

definition generateAIInsights :: "rounding \<Rightarrow> ServiceStatus list \<Rightarrow> AIInsight list" where
  "generateAIInsights rd services =
     (let n0 = [];
          n1 = (if js_gt (avgResponseTime rd services) (Fin 60)
                then n0 @ [prediction_insight rd] else n0);
          n2 = (if js_gt (avgErrorRate rd services) (rd 0.03)
                then n1 @ [anomaly_insight rd] else n1);
          n3 = (if js_gt (totalConnections rd services) (Fin 150)
                then n2 @ [capacity_insight rd] else n2);
          n4 = (if js_lt (healthScore rd services) (Fin 1.0)
                then n3 @ [health_insight rd (healthScore rd services) services] else n3);
          n5 = (if length n4 = 0 then n4 @ [optimal_insight rd] else n4)
      in n5)"

text \<open>The insights of a result that are nominal: type health, confidence 0.95, severity low.\<close>

definition is_nominal :: "rounding \<Rightarrow> AIInsight \<Rightarrow> bool" where
  "is_nominal rd i = (itype i = Health \<and> confidence i = rd 0.95 \<and> severity i = Low)"

definition nominal_insights :: "rounding \<Rightarrow> AIInsight list \<Rightarrow> AIInsight list" where
  "nominal_insights rd ins = filter (is_nominal rd) ins"

definition is_prediction :: "AIInsight \<Rightarrow> bool" where
  "is_prediction i = (itype i = Prediction)"

definition prediction_insights :: "AIInsight list \<Rightarrow> AIInsight list" where
  "prediction_insights ins = filter is_prediction ins"

text \<open>The services an insight names as affected, for the two payloads that have the field.\<close>

fun affected_services :: "AIInsight \<Rightarrow> string list" where
  "affected_services i =
     (case idata i of
        PredictionData _ _ names \<Rightarrow> names
      | HealthData _ _ names \<Rightarrow> names
      | _ \<Rightarrow> [])"

definition above_T1 :: "ServiceStatus \<Rightarrow> bool" where
  "above_T1 s = js_gt (responseTime s) (Fin 60)"

definition names_above_T1 :: "ServiceStatus list \<Rightarrow> string list" where
  "names_above_T1 services = map name (filter above_T1 services)"

text \<open>The arithmetic mean of a list of reals (of a non-empty list).\<close>

definition mean :: "real list \<Rightarrow> real" where
  "mean xs = sum_list xs / real (length xs)"

section \<open>Alert lifecycle (App.tsx, generateRealtimeData)\<close>

datatype alert_type = Critical | WarningAlert | Info

record Alert =
  alert_id :: string
  service :: string
  atype :: alert_type
  message :: string
  alert_timestamp :: string
  resolved :: bool

definition alertTypes :: "alert_type list" where
  "alertTypes = [WarningAlert, Critical, Info]"

definition alert_services :: "string list" where
  "alert_services = [''Payments Service'', ''Investments Service'', ''Accounts Service'']"

definition messages :: "string list" where
  "messages =
     [''High latency detected - 95th percentile above threshold'',
      ''Memory usage approaching limit'',
      ''Unusual traffic pattern detected'',
      ''Database connection pool exhausted'',
      ''Rate limiting activated'']"

text \<open>
  What one cycle reads from outside: the clock (\<^verbatim>\<open>Date.now().toString()\<close> and
  \<^verbatim>\<open>now.toISOString()\<close>) and the results of its calls of \<^verbatim>\<open>Math.random()\<close>, the last
  one indexed by the position of the alert the \<^verbatim>\<open>forEach\<close> is visiting.
\<close>

record cycle =
  date_now :: string
  cycle_iso :: string
  trigger_draw :: unit_draw
  service_draw :: unit_draw
  type_draw :: unit_draw
  message_draw :: unit_draw
  resolve_draw :: "nat \<Rightarrow> unit_draw"

definition triggered_alert :: "rounding \<Rightarrow> cycle \<Rightarrow> Alert" where
  "triggered_alert rd c =
     \<lparr>alert_id = date_now c,
      service = alert_services ! random_index rd (service_draw c) (length alert_services),
      atype = alertTypes ! random_index rd (type_draw c) (length alertTypes),
      message = messages ! random_index rd (message_draw c) (length messages),
      alert_timestamp = cycle_iso c,
      resolved = False\<rparr>"

text \<open>The \<^verbatim>\<open>forEach\<close> that resolves alerts at random; \<open>k\<close> is the position of the head.\<close>

fun resolve_pass :: "rounding \<Rightarrow> cycle \<Rightarrow> nat \<Rightarrow> Alert list \<Rightarrow> Alert list" where
  "resolve_pass rd c k [] = []"
| "resolve_pass rd c k (alert # rest) =
     (if \<not> resolved alert \<and> js_gt (Fin (draw_val (resolve_draw c k))) (rd 0.98)
      then alert\<lparr>resolved := True\<rparr> else alert) # resolve_pass rd c (Suc k) rest"

text \<open>
  The alert part of \<^verbatim>\<open>generateRealtimeData\<close>. It reads the variable \<^verbatim>\<open>alerts\<close> of its
  closure and hands its result to \<^verbatim>\<open>setAlerts\<close>; here the value read is the argument and
  the value set is the result.
\<close>

definition generateRealtimeData_alerts :: "rounding \<Rightarrow> Alert list \<Rightarrow> cycle \<Rightarrow> Alert list" where
  "generateRealtimeData_alerts rd alerts c =
     (let existingAlerts = filter (\<lambda>a. \<not> resolved a) alerts;
          newAlerts = existingAlerts;
          newAlerts = (if js_gt (Fin (draw_val (trigger_draw c))) (rd 0.95) \<and> length newAlerts < 5
                       then newAlerts @ [triggered_alert rd c] else newAlerts)
      in resolve_pass rd c 0 newAlerts)"

text \<open>
  The component. The state starts as \<^verbatim>\<open>useState([])\<close>. \<^verbatim>\<open>generateRealtimeData\<close> is
  created inside \<^verbatim>\<open>useEffect(..., [])\<close>, which runs once, after the first render; it is
  called there and then by \<^verbatim>\<open>setInterval\<close>. The \<^verbatim>\<open>alerts\<close> of its closure is therefore
  the value of the first render, the empty array, at every cycle, whatever \<^verbatim>\<open>setAlerts\<close>
  has stored since. The state after a cycle is what that cycle handed to \<^verbatim>\<open>setAlerts\<close>.
\<close>

definition alerts_after_cycles :: "rounding \<Rightarrow> cycle list \<Rightarrow> Alert list" where
  "alerts_after_cycles rd cs =
     foldl (\<lambda>state c. generateRealtimeData_alerts rd [] c) [] cs"

text \<open>
  The function applied cycle after cycle to its own result, from any value read by the
  first call. The states of the component are among those it reaches from the empty
  array: each is the result of one cycle from there.
\<close>

definition run_cycles :: "rounding \<Rightarrow> Alert list \<Rightarrow> cycle list \<Rightarrow> Alert list" where
  "run_cycles rd alerts cs = foldl (generateRealtimeData_alerts rd) alerts cs"

text \<open>The unresolved alerts, those the dashboard counts as active.\<close>

definition unresolved :: "Alert list \<Rightarrow> Alert list" where
  "unresolved alerts = filter (\<lambda>a. \<not> resolved a) alerts"



text \<open>
  Modelled from the spec: \<^verbatim>\<open>resolveAlert(id)\<close>, the write of section 6. The sources
  have no such function (alerts are resolved only by the random pass above). After
  section 8: the alert with this id becomes \<^verbatim>\<open>resolved=true\<close>, an unknown id is a no-op.
\<close>

definition resolveAlert :: "string \<Rightarrow> Alert list \<Rightarrow> Alert list" where
  "resolveAlert i alerts =
     map (\<lambda>a. if alert_id a = i then a\<lparr>resolved := True\<rparr> else a) alerts"

section \<open>Predicates of the statements\<close>

text \<open>
  Two properties of the rounding of doubles to the nearest: it preserves the order, and
  it leaves unchanged the natural numbers up to \<open>2\<^sup>5\<^sup>3\<close>.
\<close>

definition order_preserving_rounding :: "rounding \<Rightarrow> bool" where
  "order_preserving_rounding rd =
     ((\<forall>x y. x \<le> y \<longrightarrow> js_le (rd x) (rd y)) \<and>
      (\<forall>k::nat. k \<le> 2 ^ 53 \<longrightarrow> rd (real k) = Fin (real k)))"

text \<open>An error rate of the data model: a finite number of the unit interval.\<close>

definition unit_rate :: "jsnum \<Rightarrow> bool" where
  "unit_rate x = (case x of Fin r \<Rightarrow> 0 \<le> r \<and> r \<le> 1 | _ \<Rightarrow> False)"

text \<open>Position \<open>i\<close> holds the first service of the list that is named \<open>n\<close>.\<close>

definition first_named_at :: "string \<Rightarrow> ServiceStatus list \<Rightarrow> nat \<Rightarrow> bool" where
  "first_named_at n services i =
     (i < length services \<and> name (services ! i) = n \<and> n \<notin> set (map name (take i services)))"

text \<open>The conditions of the four threshold rules, as the \<^verbatim>\<open>if\<close> statements test them.\<close>

definition prediction_fires :: "rounding \<Rightarrow> ServiceStatus list \<Rightarrow> bool" where
  "prediction_fires rd services = js_gt (avgResponseTime rd services) (Fin 60)"

definition anomaly_fires :: "rounding \<Rightarrow> ServiceStatus list \<Rightarrow> bool" where
  "anomaly_fires rd services = js_gt (avgErrorRate rd services) (rd 0.03)"

definition capacity_fires :: "rounding \<Rightarrow> ServiceStatus list \<Rightarrow> bool" where
  "capacity_fires rd services = js_gt (totalConnections rd services) (Fin 150)"

definition health_fires :: "rounding \<Rightarrow> ServiceStatus list \<Rightarrow> bool" where
  "health_fires rd services = js_lt (healthScore rd services) (Fin 1.0)"

text \<open>The trigger of a cycle passes: the draw is above 0.95 and fewer than 5 alerts are carried.\<close>

definition trigger_passes :: "rounding \<Rightarrow> cycle \<Rightarrow> Alert list \<Rightarrow> bool" where
  "trigger_passes rd c alerts =
     (js_gt (Fin (draw_val (trigger_draw c))) (rd 0.95) \<and> length (unresolved alerts) < 5)"

text \<open>None of the first \<open>n\<close> resolution draws of a cycle passes.\<close>

definition no_resolution :: "rounding \<Rightarrow> cycle \<Rightarrow> nat \<Rightarrow> bool" where
  "no_resolution rd c n =
     list_all (\<lambda>k. \<not> js_gt (Fin (draw_val (resolve_draw c k))) (rd 0.98)) [0..<n]"

section \<open>Example inputs\<close>

text \<open>
  The examples are evaluated with \<open>exact_rounding\<close>. The numbers they compute with are
  doubles whose sums, products and quotients are doubles again, so that no operation
  rounds.
\<close>

definition tick_of :: "nat \<Rightarrow> tick" where
  "tick_of k = \<lparr>now_iso = ''2024-01-01T00:00:00.000Z'', rnd = (\<lambda>_. draw_of (real k / 32))\<rparr>"

definition ticks21 :: "tick list" where
  "ticks21 = map tick_of [0..<21]"

definition example_payload :: health_payload where
  "example_payload = \<lparr>p_status = Some StWarning, p_uptime = None, p_responseTime = Some (Fin 42),
     p_errorRate = None, p_metrics = None\<rparr>"

definition example_get :: "nat \<Rightarrow> fetch_outcome" where
  "example_get k = (if k = 1 then Rejected else Resolved (Some example_payload))"

definition overrated_payload :: health_payload where
  "overrated_payload = \<lparr>p_status = Some StHealthy, p_uptime = None, p_responseTime = Some (Fin 42),
     p_errorRate = Some (Fin 2.5), p_metrics = None\<rparr>"

definition overrated_get :: "nat \<Rightarrow> fetch_outcome" where
  "overrated_get k = Resolved (Some overrated_payload)"

definition example_service :: "string \<Rightarrow> service_status \<Rightarrow> real \<Rightarrow> real \<Rightarrow> real \<Rightarrow> real \<Rightarrow> ServiceStatus" where
  "example_service n st rt er rps conns =
     \<lparr>name = n, status = st, url = ''http://localhost'', uptime = ''99.9%'',
      responseTime = Fin rt, errorRate = Fin er, description = [],
      metrics = \<lparr>cpu = Fin 20, memory = Fin 50, requests_per_second = Fin rps,
                 active_connections = Fin conns\<rparr>\<rparr>"

definition example_services :: "ServiceStatus list" where
  "example_services =
     [example_service ''Payments Service'' StHealthy 45 0.015625 120 30,
      example_service ''Investments Service'' StHealthy 40 0.015625 80 30,
      example_service ''Accounts Service'' StHealthy 50 0.015625 60 30]"

definition slow_services :: "ServiceStatus list" where
  "slow_services = [example_service ''Accounts Service'' StHealthy 85 0.015625 60 30]"

definition example_cycle :: "string \<Rightarrow> real \<Rightarrow> real \<Rightarrow> cycle" where
  "example_cycle ms trig res =
     \<lparr>date_now = ms, cycle_iso = ''2024-01-01T00:00:00.000Z'',
      trigger_draw = draw_of trig, service_draw = draw_of 0, type_draw = draw_of 0,
      message_draw = draw_of 0, resolve_draw = (\<lambda>_. draw_of res)\<rparr>"

definition firing_cycle_1 :: cycle where
  "firing_cycle_1 = example_cycle ''1700000000000'' 0.984375 0"


definition resolving_cycle :: cycle where
  "resolving_cycle = example_cycle ''1700000000000'' 0.984375 0.984375"

definition quiet_cycle :: cycle where
  "quiet_cycle = example_cycle ''1700000005000'' 0 0"

definition example_alert :: "string \<Rightarrow> bool \<Rightarrow> Alert" where
  "example_alert i r =
     \<lparr>alert_id = i, service = ''Payments Service'', atype = Critical,
      message = ''Rate limiting activated'', alert_timestamp = ''2024-01-01T00:00:00.000Z'',
      resolved = r\<rparr>"

definition mixed_alerts :: "Alert list" where
  "mixed_alerts = [example_alert ''1'' False, example_alert ''2'' True]"

definition resolved_created :: Alert where
  "resolved_created = (triggered_alert exact_rounding resolving_cycle)\<lparr>resolved := True\<rparr>"

definition five_alerts :: "Alert list" where
  "five_alerts = map (\<lambda>i. example_alert i False) [''1'', ''2'', ''3'', ''4'', ''5'']"

section \<open>Random draws\<close>

lemma draw_val_draw_of: "draw_val (draw_of r) = (if 0 \<le> r \<and> r < 1 then r else 0)"
  by transfer simp

lemma draw_val_range: "0 \<le> draw_val d \<and> draw_val d < 1"
  by transfer simp

lemma random_index_exact_less: "0 < n \<Longrightarrow> random_index exact_rounding d n < n"
proof -
  assume n: "0 < n"
  have "draw_val d * real n < real n"
    using draw_val_range [of d] n by simp
  then have "\<lfloor>draw_val d * real n\<rfloor> < int n"
    by (simp add: floor_less_iff)
  moreover have "0 \<le> draw_val d * real n"
    using draw_val_range [of d] by simp
  ultimately show ?thesis
    by (simp add: random_index_def exact_rounding_def nat_less_iff)
qed

section \<open>Sample buffer: what a series holds\<close>

lemma slice_last_short: "length xs \<le> n \<Longrightarrow> slice_last n xs = xs"
  by (simp add: slice_last_def)

lemma length_slice_last: "length (slice_last n xs) = min n (length xs)"
  by (simp add: slice_last_def)

lemma series_of_update_same:
  "series_of (update_metric rd tk m t) t = slice_last 20 (series_of m t @ [new_point rd tk t])"
  by (simp add: update_metric_def series_of_def Let_def slice_last_short)

lemma series_of_update_other:
  "t' \<noteq> t \<Longrightarrow> series_of (update_metric rd tk m t') t = series_of m t"
  by (simp add: update_metric_def series_of_def Let_def)

lemma series_of_foldl_not_mem:
  "t \<notin> set ts \<Longrightarrow> series_of (foldl (update_metric rd tk) m ts) t = series_of m t"
  by (induction ts arbitrary: m) (auto simp: series_of_update_other)

lemma series_of_foldl_mem:
  "distinct ts \<Longrightarrow> t \<in> set ts \<Longrightarrow>
   series_of (foldl (update_metric rd tk) m ts) t
   = slice_last 20 (series_of m t @ [new_point rd tk t])"
proof (induction ts arbitrary: m)
  case Nil
  then show ?case by simp
next
  case (Cons a ts)
  show ?case
  proof (cases "a = t")
    case True
    with Cons.prems have "t \<notin> set ts" by simp
    then show ?thesis
      using True by (simp add: series_of_foldl_not_mem series_of_update_same)
  next
    case False
    with Cons.prems have "distinct ts" "t \<in> set ts" by auto
    then show ?thesis
      using False Cons.IH by (simp add: series_of_update_other)
  qed
qed

lemma distinct_metricTypes: "distinct metricTypes"
  by (simp add: metricTypes_def)

lemma series_of_generate:
  "t \<in> set metricTypes \<Longrightarrow>
   series_of (generateMetricsData rd m tk) t
   = slice_last 20 (series_of m t @ [new_point rd tk t])"
  by (simp add: generateMetricsData_def series_of_foldl_mem distinct_metricTypes)

lemma metrics_after_ticks_last:
  "tks \<noteq> [] \<Longrightarrow> metrics_after_ticks rd tks = generateMetricsData rd Map.empty (last tks)"
proof (induction tks rule: rev_induct)
  case Nil
  then show ?case by simp
next
  case (snoc tk tks)
  show ?case by (simp add: metrics_after_ticks_def)
qed

text \<open>
  Claim C3. Applied to the series it reads, \<^verbatim>\<open>generateMetricsData\<close> appends the new sample
  and keeps the last 20. In the component it reads the empty state at every tick, so that
  after one tick or more each of the five series holds one sample, the last one pushed:
  after 20 pushes or more the series is not the last 20 samples pushed.
\<close>

theorem metrics_series_holds_last_sample_only:
  assumes "t \<in> set metricTypes"
  shows "series_of (generateMetricsData rd m tk) t
           = slice_last 20 (series_of m t @ [new_point rd tk t]) \<and>
         (tks \<noteq> [] \<longrightarrow>
            series_of (metrics_after_ticks rd tks) t = [new_point rd (last tks) t])"
proof -
  have "series_of (metrics_after_ticks rd tks) t = [new_point rd (last tks) t]" if "tks \<noteq> []"
  proof -
    have "series_of (generateMetricsData rd Map.empty (last tks)) t
          = slice_last 20 (series_of Map.empty t @ [new_point rd (last tks) t])"
      using assms by (rule series_of_generate)
    then show ?thesis
      using that by (simp add: metrics_after_ticks_last series_of_def slice_last_short)
  qed
  then show ?thesis
    using series_of_generate [OF assms] by blast
qed

theorem metrics_series_holds_last_sample_only_witness:
  "''cpuUsage'' \<in> set metricTypes \<and> ticks21 \<noteq> [] \<and> length ticks21 = 21 \<and>
   series_of (metrics_after_ticks exact_rounding ticks21) ''cpuUsage''
     = [new_point exact_rounding (tick_of 20) ''cpuUsage''] \<and>
   mvalue (new_point exact_rounding (tick_of 20) ''cpuUsage'') = Fin 26.875 \<and>
   mvalue (new_point exact_rounding (tick_of 19) ''cpuUsage'') = Fin 26.40625 \<and>
   length (drop (length ticks21 - 20) (map (\<lambda>tk. new_point exact_rounding tk ''cpuUsage'') ticks21))
     = 20"
proof -
  have t: "''cpuUsage'' \<in> set metricTypes"
    by (simp add: metricTypes_def)
  have n: "ticks21 \<noteq> []" and l: "length ticks21 = 21"
    by (simp_all add: ticks21_def)
  have "[0..<21] = [0..<20] @ [20]"
    by (simp add: upt_rec)
  then have e: "last ticks21 = tick_of 20"
    by (simp add: ticks21_def)
  have s: "series_of (metrics_after_ticks exact_rounding ticks21) ''cpuUsage''
           = [new_point exact_rounding (tick_of 20) ''cpuUsage'']"
    using metrics_series_holds_last_sample_only [OF t, of exact_rounding Map.empty "tick_of 0" ticks21]
      n e by simp
  have v: "mvalue (new_point exact_rounding (tick_of 20) ''cpuUsage'') = Fin 26.875"
    "mvalue (new_point exact_rounding (tick_of 19) ''cpuUsage'') = Fin 26.40625"
    by (simp_all add: new_point_def base_variance_def tick_of_def draw_val_draw_of
        exact_rounding_def js_sub_def js_max_def)
  from t n l s v show ?thesis by simp
qed

section \<open>Service poller: one record per service\<close>

lemma poll_loop_zip:
  "poll_loop get k configs acc
   = acc @ map (\<lambda>(config, j). poll_one config (get j)) (zip configs [k..<k + length configs])"
proof (induction configs arbitrary: k acc)
  case Nil
  then show ?case by simp
next
  case (Cons c cs)
  have "[k..<Suc (k + length cs)] = k # [Suc k..<Suc (k + length cs)]"
    by (rule upt_conv_Cons) simp
  then have "[k..<k + length (c # cs)] = k # [Suc k..<Suc k + length cs]"
    by (simp only: length_Cons add_Suc_right add_Suc)
  then show ?case
    by (simp only: poll_loop.simps Cons.IH zip_Cons_Cons list.map prod.case append_Cons append_Nil append_assoc)
qed

lemma length_poll_loop: "length (poll_loop get k configs acc) = length acc + length configs"
  by (simp add: poll_loop_zip)

lemma nth_fetch_services:
  assumes "i < length configs"
  shows "fetchServiceHealth_services get configs ! i = poll_one (configs ! i) (get i)"
  using assms by (simp add: fetchServiceHealth_services_def poll_loop_zip)

text \<open>
  Claim C5. A poll cycle yields one record per configured service, in order and under the
  configured name. A service whose request fails (it throws, or its body is missing) gets
  status error, error rate 1 and zeroed metrics; a service that answers gets the
  normalization of its own answer; and the record of a service depends on no outcome but
  its own.
\<close>

theorem poll_cycle_isolates_failures:
  assumes "i < length configs"
  shows "length (fetchServiceHealth_services get configs) = length configs \<and>
         name (fetchServiceHealth_services get configs ! i) = cfg_name (configs ! i) \<and>
         (get i = Rejected \<or> get i = Resolved None \<longrightarrow>
            status (fetchServiceHealth_services get configs ! i) = StError \<and>
            errorRate (fetchServiceHealth_services get configs ! i) = Fin 1 \<and>
            metrics (fetchServiceHealth_services get configs ! i) = zero_metrics) \<and>
         (\<forall>data. get i = Resolved (Some data) \<longrightarrow>
            fetchServiceHealth_services get configs ! i = normalize (configs ! i) data) \<and>
         (\<forall>get'. get' i = get i \<longrightarrow>
            fetchServiceHealth_services get' configs ! i
            = fetchServiceHealth_services get configs ! i)"
proof -
  have len: "length (fetchServiceHealth_services get configs) = length configs"
    by (simp add: fetchServiceHealth_services_def length_poll_loop)
  have nth: "fetchServiceHealth_services g configs ! i = poll_one (configs ! i) (g i)" for g
    using assms by (rule nth_fetch_services)
  have nm: "name (poll_one c out) = cfg_name c" for c out
    by (simp add: poll_one_def error_record_def normalize_def
        split: fetch_outcome.split option.split)
  have fails: "poll_one c out = error_record c" if "out = Rejected \<or> out = Resolved None" for c out
    using that by (auto simp: poll_one_def)
  have ok: "poll_one c (Resolved (Some d)) = normalize c d" for c d
    by (simp add: poll_one_def)
  show ?thesis
    using len by (auto simp: nth nm fails ok error_record_def)
qed


theorem poll_cycle_isolates_failures_witness:
  "1 < length serviceConfigs \<and> example_get 1 = Rejected \<and>
   length (fetchServiceHealth_services example_get serviceConfigs) = 3 \<and>
   name (fetchServiceHealth_services example_get serviceConfigs ! 1) = ''Investments Service'' \<and>
   status (fetchServiceHealth_services example_get serviceConfigs ! 1) = StError \<and>
   errorRate (fetchServiceHealth_services example_get serviceConfigs ! 1) = Fin 1 \<and>
   metrics (fetchServiceHealth_services example_get serviceConfigs ! 1) = zero_metrics"
proof -
  have h: "1 < length serviceConfigs"
    by (simp add: serviceConfigs_def)
  have r: "example_get 1 = Rejected"
    by (simp add: example_get_def)
  have "length (fetchServiceHealth_services example_get serviceConfigs) = length serviceConfigs \<and>
        name (fetchServiceHealth_services example_get serviceConfigs ! 1)
          = cfg_name (serviceConfigs ! 1) \<and>
        status (fetchServiceHealth_services example_get serviceConfigs ! 1) = StError \<and>
        errorRate (fetchServiceHealth_services example_get serviceConfigs ! 1) = Fin 1 \<and>
        metrics (fetchServiceHealth_services example_get serviceConfigs ! 1) = zero_metrics"
    using poll_cycle_isolates_failures [OF h, of example_get] r by blast
  then show ?thesis
    using h r by (simp add: serviceConfigs_def)
qed

section \<open>Aggregator: error rate and named fields\<close>

lemma foldl_js_add_exact:
  assumes "\<forall>x\<in>set xs. is_fin (f x)"
  shows "foldl (\<lambda>acc x. js_add exact_rounding acc (f x)) (Fin a) xs
         = Fin (a + sum_list (map (\<lambda>x. fin_val (f x)) xs))"
  using assms
proof (induction xs arbitrary: a)
  case Nil
  then show ?case by simp
next
  case (Cons x xs)
  then obtain r where r: "f x = Fin r"
    by (cases "f x") auto
  with Cons show ?case
    by (simp add: add.assoc exact_rounding_def)
qed

lemma overview_error_rate_exact:
  assumes "newServices \<noteq> []" and "\<forall>s\<in>set newServices. is_fin (errorRate s)"
  shows "overviewErrorRate (fetchServiceHealth_overview exact_rounding newServices)
         = Fin (mean (map (\<lambda>s. fin_val (errorRate s)) newServices))"
  using assms
  by (simp add: fetchServiceHealth_overview_def foldl_js_add_exact js_len_def mean_def
      exact_rounding_def)

lemma rounding_between:
  assumes rd: "order_preserving_rounding rd"
    and x: "0 \<le> x" "x \<le> real k" and k: "k \<le> 2 ^ 53"
  shows "\<exists>v. rd x = Fin v \<and> 0 \<le> v \<and> v \<le> real k"
proof -
  have mono: "js_le (rd a) (rd b)" if "a \<le> b" for a b
    using rd that by (simp add: order_preserving_rounding_def)
  have nat_fixed: "rd (real j) = Fin (real j)" if "j \<le> 2 ^ 53" for j :: nat
    using rd that by (simp add: order_preserving_rounding_def)
  have "rd (real (0::nat)) = Fin (real (0::nat))"
    by (rule nat_fixed) simp
  then have zero: "rd 0 = Fin 0" by simp
  have lo: "js_le (Fin 0) (rd x)"
    using mono [OF x(1)] zero by simp
  have hi: "js_le (rd x) (Fin (real k))"
    using mono [OF x(2)] nat_fixed [OF k] by simp
  show ?thesis
    using lo hi by (cases "rd x") simp_all
qed

lemma unit_rate_Fin: "unit_rate x \<Longrightarrow> \<exists>r. x = Fin r \<and> 0 \<le> r \<and> r \<le> 1"
  by (cases x) (simp_all add: unit_rate_def)

lemma foldl_js_add_between:
  assumes rd: "order_preserving_rounding rd"
    and u: "\<forall>x\<in>set xs. unit_rate (f x)"
    and a: "0 \<le> a" "a \<le> real j" and j: "j + length xs \<le> 2 ^ 53"
  shows "\<exists>v. foldl (\<lambda>acc x. js_add rd acc (f x)) (Fin a) xs = Fin v \<and>
             0 \<le> v \<and> v \<le> real (j + length xs)"
  using u a j
proof (induction xs arbitrary: a j)
  case Nil
  then show ?case by simp
next
  case (Cons x xs)
  from Cons.prems(1) obtain r where r: "f x = Fin r" "0 \<le> r" "r \<le> 1"
    using unit_rate_Fin [of "f x"] by auto
  have "0 \<le> a + r" "a + r \<le> real (Suc j)" "Suc j \<le> 2 ^ 53"
    using r Cons.prems(2,3,4) by simp_all
  then obtain w where w: "rd (a + r) = Fin w" "0 \<le> w" "w \<le> real (Suc j)"
    using rounding_between [OF rd] by blast
  have "\<forall>y\<in>set xs. unit_rate (f y)"
    using Cons.prems(1) by simp
  moreover have "Suc j + length xs \<le> 2 ^ 53"
    using Cons.prems(4) by simp
  ultimately obtain v where
    "foldl (\<lambda>acc x. js_add rd acc (f x)) (Fin w) xs = Fin v" "0 \<le> v"
    "v \<le> real (Suc j + length xs)"
    using Cons.IH [of w "Suc j"] w by blast
  then show ?case
    using r w by simp
qed

lemma overview_error_rate_unit:
  assumes rd: "order_preserving_rounding rd"
    and ne: "newServices \<noteq> []" and len: "length newServices \<le> 2 ^ 53"
    and u: "\<forall>s\<in>set newServices. unit_rate (errorRate s)"
  shows "unit_rate (overviewErrorRate (fetchServiceHealth_overview rd newServices))"
proof -
  let ?n = "length newServices"
  obtain v where v:
    "foldl (\<lambda>acc s. js_add rd acc (errorRate s)) (Fin 0) newServices = Fin v"
    "0 \<le> v" "v \<le> real ?n"
    using foldl_js_add_between [OF rd u, of 0 0] len by auto
  have pos: "0 < real ?n"
    using ne by simp
  then have "0 \<le> v / real ?n" "v / real ?n \<le> real (1::nat)"
    using v by (simp_all add: divide_le_eq)
  then obtain w where w: "rd (v / real ?n) = Fin w" "0 \<le> w" "w \<le> real (1::nat)"
    using rounding_between [OF rd, of "v / real ?n" 1] by auto
  have "overviewErrorRate (fetchServiceHealth_overview rd newServices) = Fin w"
    using v(1) w(1) pos by (simp add: fetchServiceHealth_overview_def js_len_def)
  then show ?thesis
    using w by (simp add: unit_rate_def)
qed

lemma order_preserving_exact: "order_preserving_rounding exact_rounding"
  by (simp add: order_preserving_rounding_def exact_rounding_def)

text \<open>
  Claim C2, as amended. For every non-empty list of service records whose error rates lie
  in the unit interval, the overview's error rate lies in the unit interval, whatever the
  operations round, as long as the rounding preserves the order and leaves the natural
  numbers unchanged (an array has fewer than \<open>2\<^sup>3\<^sup>2\<close> elements). The error rate is the mean of the services' error rates as the
  operations compute it: it is their arithmetic mean when no operation rounds. On the
  empty list the aggregation returns an overview whose five other fields are zero.
\<close>

theorem overview_error_rate_in_unit_interval:
  "(order_preserving_rounding rd \<and> newServices \<noteq> [] \<and> length newServices < 2 ^ 32 \<and>
    list_all (\<lambda>s. unit_rate (errorRate s)) newServices \<longrightarrow>
      unit_rate (overviewErrorRate (fetchServiceHealth_overview rd newServices))) \<and>
   (newServices \<noteq> [] \<and> list_all (\<lambda>s. is_fin (errorRate s)) newServices \<longrightarrow>
      overviewErrorRate (fetchServiceHealth_overview exact_rounding newServices)
        = Fin (mean (map (\<lambda>s. fin_val (errorRate s)) newServices))) \<and>
   totalRequests (fetchServiceHealth_overview rd []) = Fin 0 \<and>
   activeConnections (fetchServiceHealth_overview rd []) = Fin 0 \<and>
   totalAccounts (fetchServiceHealth_overview rd []) = Fin 0 \<and>
   portfolioValue (fetchServiceHealth_overview rd []) = Fin 0 \<and>
   paymentsProcessed (fetchServiceHealth_overview rd []) = Fin 0"
proof -
  have a: "unit_rate (overviewErrorRate (fetchServiceHealth_overview rd newServices))"
    if h: "order_preserving_rounding rd" "newServices \<noteq> []" "length newServices < 2 ^ 32"
      "list_all (\<lambda>s. unit_rate (errorRate s)) newServices"
  proof -
    have "(2::nat) ^ 32 \<le> 2 ^ 53" by simp
    with h(3) have "length newServices \<le> 2 ^ 53" by linarith
    with h(1,2,4) show ?thesis
      by (intro overview_error_rate_unit) (simp_all add: list_all_iff)
  qed
  have b: "overviewErrorRate (fetchServiceHealth_overview exact_rounding newServices)
           = Fin (mean (map (\<lambda>s. fin_val (errorRate s)) newServices))"
    if "newServices \<noteq> []" "list_all (\<lambda>s. is_fin (errorRate s)) newServices"
    using that by (intro overview_error_rate_exact) (simp_all add: list_all_iff)
  have c: "totalRequests (fetchServiceHealth_overview rd []) = Fin 0"
    "activeConnections (fetchServiceHealth_overview rd []) = Fin 0"
    "totalAccounts (fetchServiceHealth_overview rd []) = Fin 0"
    "portfolioValue (fetchServiceHealth_overview rd []) = Fin 0"
    "paymentsProcessed (fetchServiceHealth_overview rd []) = Fin 0"
    by (simp_all add: fetchServiceHealth_overview_def rps_of_named_def)
  from a b c show ?thesis by blast
qed

theorem overview_error_rate_in_unit_interval_witness:
  "order_preserving_rounding exact_rounding \<and> example_services \<noteq> [] \<and>
   length example_services < 2 ^ 32 \<and>
   list_all (\<lambda>s. unit_rate (errorRate s)) example_services \<and>
   list_all (\<lambda>s. is_fin (errorRate s)) example_services \<and>
   unit_rate (overviewErrorRate (fetchServiceHealth_overview exact_rounding example_services)) \<and>
   overviewErrorRate (fetchServiceHealth_overview exact_rounding example_services) = Fin 0.015625"
proof -
  have h: "example_services \<noteq> []" "length example_services < 2 ^ 32"
    "list_all (\<lambda>s. unit_rate (errorRate s)) example_services"
    "list_all (\<lambda>s. is_fin (errorRate s)) example_services"
    by (simp_all add: example_services_def example_service_def unit_rate_def)
  note t = overview_error_rate_in_unit_interval [of exact_rounding example_services]
  have u: "unit_rate (overviewErrorRate (fetchServiceHealth_overview exact_rounding example_services))"
    using t h order_preserving_exact by blast
  have "overviewErrorRate (fetchServiceHealth_overview exact_rounding example_services)
        = Fin (mean (map (\<lambda>s. fin_val (errorRate s)) example_services))"
    using t h by blast
  also have "\<dots> = Fin 0.015625"
    by (simp add: example_services_def example_service_def mean_def)
  finally show ?thesis
    using h u order_preserving_exact by blast
qed

text \<open>
  Three services answer with an error rate of 2.5 each: the records carry it as it came
  and the overview's error rate is 2.5, outside the unit interval.
\<close>

theorem overview_error_rate_above_one_counterexample:
  "map errorRate (fst (fetchServiceHealth exact_rounding overrated_get serviceConfigs))
     = [Fin 2.5, Fin 2.5, Fin 2.5] \<and>
   overviewErrorRate (snd (fetchServiceHealth exact_rounding overrated_get serviceConfigs))
     = Fin 2.5 \<and>
   \<not> unit_rate (Fin 2.5)"
  by (simp add: fetchServiceHealth_def fetchServiceHealth_services_def
      fetchServiceHealth_overview_def serviceConfigs_def overrated_get_def
      overrated_payload_def poll_one_def normalize_def num_or_def js_len_def
      exact_rounding_def unit_rate_def Let_def)

lemma rps_of_named_absent:
  "n \<notin> set (map name services) \<Longrightarrow> rps_of_named n services = Fin 0"
  by (induction services) (auto simp: rps_of_named_def)

lemma rps_of_named_first:
  "first_named_at n services i \<Longrightarrow>
   rps_of_named n services = requests_per_second (metrics (services ! i))"
proof (induction services arbitrary: i)
  case Nil
  then show ?case by (simp add: first_named_at_def)
next
  case (Cons s ss)
  show ?case
  proof (cases i)
    case 0
    with Cons.prems show ?thesis
      by (simp add: first_named_at_def rps_of_named_def)
  next
    case (Suc k)
    with Cons.prems have "name s \<noteq> n" and "first_named_at n ss k"
      by (auto simp: first_named_at_def)
    with Cons.IH [of k] Suc show ?thesis
      by (simp add: rps_of_named_def)
  qed
qed

text \<open>
  Claim C10. In the overview, \<^verbatim>\<open>totalAccounts\<close>, \<^verbatim>\<open>portfolioValue\<close> and
  \<^verbatim>\<open>paymentsProcessed\<close> are the \<^verbatim>\<open>requests_per_second\<close> of the first service named
  Accounts Service, Investments Service and Payments Service respectively, and 0 when the
  list has no service of that name.
\<close>

theorem overview_named_fields_are_request_rates:
  "(first_named_at ''Accounts Service'' services i \<longrightarrow>
      totalAccounts (fetchServiceHealth_overview rd services)
        = requests_per_second (metrics (services ! i))) \<and>
   (''Accounts Service'' \<notin> set (map name services) \<longrightarrow>
      totalAccounts (fetchServiceHealth_overview rd services) = Fin 0) \<and>
   (first_named_at ''Investments Service'' services j \<longrightarrow>
      portfolioValue (fetchServiceHealth_overview rd services)
        = requests_per_second (metrics (services ! j))) \<and>
   (''Investments Service'' \<notin> set (map name services) \<longrightarrow>
      portfolioValue (fetchServiceHealth_overview rd services) = Fin 0) \<and>
   (first_named_at ''Payments Service'' services k \<longrightarrow>
      paymentsProcessed (fetchServiceHealth_overview rd services)
        = requests_per_second (metrics (services ! k))) \<and>
   (''Payments Service'' \<notin> set (map name services) \<longrightarrow>
      paymentsProcessed (fetchServiceHealth_overview rd services) = Fin 0)"
  by (simp add: fetchServiceHealth_overview_def rps_of_named_first rps_of_named_absent)

theorem overview_named_fields_are_request_rates_witness:
  "first_named_at ''Accounts Service'' example_services 2 \<and>
   first_named_at ''Investments Service'' example_services 1 \<and>
   first_named_at ''Payments Service'' example_services 0 \<and>
   totalAccounts (fetchServiceHealth_overview exact_rounding example_services) = Fin 60 \<and>
   portfolioValue (fetchServiceHealth_overview exact_rounding example_services) = Fin 80 \<and>
   paymentsProcessed (fetchServiceHealth_overview exact_rounding example_services) = Fin 120 \<and>
   ''Accounts Service'' \<notin> set (map name (take 2 example_services)) \<and>
   ''Payments Service'' \<notin> set (map name (drop 1 example_services)) \<and>
   ''Investments Service'' \<notin> set (map name (take 1 example_services)) \<and>
   totalAccounts (fetchServiceHealth_overview exact_rounding (take 2 example_services)) = Fin 0 \<and>
   paymentsProcessed (fetchServiceHealth_overview exact_rounding (drop 1 example_services)) = Fin 0 \<and>
   portfolioValue (fetchServiceHealth_overview exact_rounding (take 1 example_services)) = Fin 0"
proof -
  have a: "first_named_at ''Accounts Service'' example_services 2"
    and b: "first_named_at ''Investments Service'' example_services 1"
    and c: "first_named_at ''Payments Service'' example_services 0"
    by (simp_all add: first_named_at_def example_services_def example_service_def)
  have d: "''Accounts Service'' \<notin> set (map name (take 2 example_services))"
    and e: "''Payments Service'' \<notin> set (map name (drop 1 example_services))"
    and f: "''Investments Service'' \<notin> set (map name (take 1 example_services))"
    by (simp_all add: example_services_def example_service_def)
  have n: "requests_per_second (metrics (example_services ! 2)) = Fin 60"
    "requests_per_second (metrics (example_services ! 1)) = Fin 80"
    "requests_per_second (metrics (example_services ! 0)) = Fin 120"
    by (simp_all add: example_services_def example_service_def)
  have v: "totalAccounts (fetchServiceHealth_overview exact_rounding example_services) = Fin 60"
    "portfolioValue (fetchServiceHealth_overview exact_rounding example_services) = Fin 80"
    "paymentsProcessed (fetchServiceHealth_overview exact_rounding example_services) = Fin 120"
    using overview_named_fields_are_request_rates [of example_services 2 exact_rounding 1 0] a b c
    by (simp_all only: n)
  have w: "totalAccounts (fetchServiceHealth_overview exact_rounding (take 2 example_services)) = Fin 0"
    using overview_named_fields_are_request_rates [of "take 2 example_services" 0 exact_rounding 0 0] d
    by blast
  have x: "paymentsProcessed (fetchServiceHealth_overview exact_rounding (drop 1 example_services)) = Fin 0"
    using overview_named_fields_are_request_rates [of "drop 1 example_services" 0 exact_rounding 0 0] e
    by blast
  have y: "portfolioValue (fetchServiceHealth_overview exact_rounding (take 1 example_services)) = Fin 0"
    using overview_named_fields_are_request_rates [of "take 1 example_services" 0 exact_rounding 0 0] f
    by blast
  from a b c d e f v w x y show ?thesis by blast
qed

section \<open>Rule engine: fallback and prediction rule\<close>

lemma not_nominal_rules:
  "\<not> is_nominal rd (prediction_insight rd)" "\<not> is_nominal rd (anomaly_insight rd)"
  "\<not> is_nominal rd (capacity_insight rd)" "\<not> is_nominal rd (health_insight rd h services)"
  by (simp_all add: is_nominal_def prediction_insight_def anomaly_insight_def
      capacity_insight_def health_insight_def)

lemma nominal_optimal: "is_nominal rd (optimal_insight rd)"
  by (simp add: is_nominal_def optimal_insight_def)

lemma insights_when_quiet:
  assumes "\<not> prediction_fires rd services" "\<not> anomaly_fires rd services"
    "\<not> capacity_fires rd services" "\<not> health_fires rd services"
  shows "generateAIInsights rd services = [optimal_insight rd]"
  using assms
  by (simp add: generateAIInsights_def prediction_fires_def anomaly_fires_def
      capacity_fires_def health_fires_def)

lemma insights_when_fired:
  assumes "prediction_fires rd services \<or> anomaly_fires rd services \<or>
           capacity_fires rd services \<or> health_fires rd services"
  shows "nominal_insights rd (generateAIInsights rd services) = []"
  using assms
  by (auto simp: generateAIInsights_def prediction_fires_def anomaly_fires_def
      capacity_fires_def health_fires_def nominal_insights_def not_nominal_rules Let_def)

text \<open>
  Claim C1. The result holds exactly one nominal insight (type health, confidence 0.95,
  severity low) if and only if none of the prediction, anomaly, capacity and health
  conditions holds; then it is the only insight of the result. When one of the four
  conditions holds, the result has no nominal insight.
\<close>

theorem fallback_iff_no_rule_fires:
  "(length (nominal_insights rd (generateAIInsights rd services)) = 1 \<longleftrightarrow>
      \<not> prediction_fires rd services \<and> \<not> anomaly_fires rd services \<and>
      \<not> capacity_fires rd services \<and> \<not> health_fires rd services) \<and>
   (nominal_insights rd (generateAIInsights rd services) = [optimal_insight rd] \<longleftrightarrow>
      \<not> prediction_fires rd services \<and> \<not> anomaly_fires rd services \<and>
      \<not> capacity_fires rd services \<and> \<not> health_fires rd services) \<and>
   (\<not> prediction_fires rd services \<and> \<not> anomaly_fires rd services \<and>
    \<not> capacity_fires rd services \<and> \<not> health_fires rd services \<longrightarrow>
      generateAIInsights rd services = [optimal_insight rd]) \<and>
   (prediction_fires rd services \<or> anomaly_fires rd services \<or>
    capacity_fires rd services \<or> health_fires rd services \<longrightarrow>
      nominal_insights rd (generateAIInsights rd services) = [])"
proof (cases "prediction_fires rd services \<or> anomaly_fires rd services \<or>
              capacity_fires rd services \<or> health_fires rd services")
  case True
  then have "nominal_insights rd (generateAIInsights rd services) = []"
    by (rule insights_when_fired)
  with True show ?thesis by auto
next
  case False
  then have "generateAIInsights rd services = [optimal_insight rd]"
    by (simp add: insights_when_quiet)
  with False show ?thesis
    by (simp add: nominal_insights_def nominal_optimal)
qed

theorem fallback_iff_no_rule_fires_witness:
  "\<not> prediction_fires exact_rounding example_services \<and>
   \<not> anomaly_fires exact_rounding example_services \<and>
   \<not> capacity_fires exact_rounding example_services \<and>
   \<not> health_fires exact_rounding example_services \<and>
   generateAIInsights exact_rounding example_services = [optimal_insight exact_rounding] \<and>
   prediction_fires exact_rounding slow_services \<and>
   nominal_insights exact_rounding (generateAIInsights exact_rounding slow_services) = []"
proof -
  have q: "\<not> prediction_fires exact_rounding example_services"
    "\<not> anomaly_fires exact_rounding example_services"
    "\<not> capacity_fires exact_rounding example_services"
    "\<not> health_fires exact_rounding example_services"
    by (simp_all add: prediction_fires_def anomaly_fires_def capacity_fires_def
        health_fires_def avgResponseTime_def avgErrorRate_def totalConnections_def
        healthScore_def js_len_def js_lt_def example_services_def example_service_def
        exact_rounding_def)
  have f: "prediction_fires exact_rounding slow_services"
    by (simp add: prediction_fires_def avgResponseTime_def js_len_def slow_services_def
        example_service_def exact_rounding_def)
  from q fallback_iff_no_rule_fires [of exact_rounding example_services]
  have a: "generateAIInsights exact_rounding example_services = [optimal_insight exact_rounding]"
    by blast
  from f fallback_iff_no_rule_fires [of exact_rounding slow_services]
  have b: "nominal_insights exact_rounding (generateAIInsights exact_rounding slow_services) = []"
    by blast
  from q f a b show ?thesis by blast
qed

lemma avgResponseTime_exact:
  assumes "\<forall>s\<in>set services. is_fin (responseTime s)"
  shows "avgResponseTime exact_rounding services
         = (if services = [] then NaN
            else Fin (mean (map (\<lambda>s. fin_val (responseTime s)) services)))"
  using assms
  by (simp add: avgResponseTime_def foldl_js_add_exact js_len_def mean_def exact_rounding_def)

lemma prediction_insights_result:
  "prediction_insights (generateAIInsights rd services)
   = (if js_gt (avgResponseTime rd services) (Fin 60) then [prediction_insight rd] else [])"
  by (simp add: generateAIInsights_def prediction_insights_def is_prediction_def
      prediction_insight_def anomaly_insight_def capacity_insight_def health_insight_def
      optimal_insight_def Let_def)

text \<open>
  Claim C4, as amended. For every services list, the rule engine emits exactly one
  prediction insight when the test of the rule holds, and none otherwise. The test is that
  the mean response time, as the code computes it (the sum from 0 in list order divided by
  the length), exceeds 60; when no operation rounds and the response times are finite,
  this is a non-empty list whose arithmetic mean exceeds 60. The insight has confidence
  0.87 and severity medium, and the affected services it names are the fixed pair
  payments and investments.
\<close>

theorem prediction_rule_threshold:
  "prediction_insights (generateAIInsights rd services)
     = (if prediction_fires rd services then [prediction_insight rd] else []) \<and>
   confidence (prediction_insight rd) = rd 0.87 \<and>
   severity (prediction_insight rd) = Medium \<and>
   affected_services (prediction_insight rd) = [''payments'', ''investments''] \<and>
   (list_all (\<lambda>s. is_fin (responseTime s)) services \<longrightarrow>
      (prediction_fires exact_rounding services \<longleftrightarrow>
         services \<noteq> [] \<and> 60 < mean (map (\<lambda>s. fin_val (responseTime s)) services)))"
proof -
  have a: "prediction_insights (generateAIInsights rd services)
           = (if prediction_fires rd services then [prediction_insight rd] else [])"
    by (simp add: prediction_insights_result prediction_fires_def)
  have b: "prediction_fires exact_rounding services \<longleftrightarrow>
           services \<noteq> [] \<and> 60 < mean (map (\<lambda>s. fin_val (responseTime s)) services)"
    if "list_all (\<lambda>s. is_fin (responseTime s)) services"
  proof -
    have "\<forall>s\<in>set services. is_fin (responseTime s)"
      using that by (simp add: list_all_iff)
    then show ?thesis
      by (simp add: prediction_fires_def avgResponseTime_exact)
  qed
  from a b show ?thesis
    by (simp add: prediction_insight_def)
qed

theorem prediction_rule_threshold_witness:
  "list_all (\<lambda>s. is_fin (responseTime s)) slow_services \<and>
   prediction_fires exact_rounding slow_services \<and>
   prediction_insights (generateAIInsights exact_rounding slow_services)
     = [prediction_insight exact_rounding] \<and>
   list_all (\<lambda>s. is_fin (responseTime s)) example_services \<and>
   \<not> prediction_fires exact_rounding example_services \<and>
   prediction_insights (generateAIInsights exact_rounding example_services) = []"
proof -
  have h: "list_all (\<lambda>s. is_fin (responseTime s)) slow_services"
    and k: "list_all (\<lambda>s. is_fin (responseTime s)) example_services"
    by (simp_all add: slow_services_def example_services_def example_service_def)
  have m: "slow_services \<noteq> [] \<and> 60 < mean (map (\<lambda>s. fin_val (responseTime s)) slow_services)"
    and n: "\<not> 60 < mean (map (\<lambda>s. fin_val (responseTime s)) example_services)"
    by (simp_all add: slow_services_def example_services_def example_service_def mean_def)
  note s = prediction_rule_threshold [of exact_rounding slow_services]
  note e = prediction_rule_threshold [of exact_rounding example_services]
  have f: "prediction_fires exact_rounding slow_services"
    using s h m by blast
  have g: "\<not> prediction_fires exact_rounding example_services"
    using e k n by blast
  have "prediction_insights (generateAIInsights exact_rounding slow_services)
        = [prediction_insight exact_rounding]"
    using s f by simp
  moreover have "prediction_insights (generateAIInsights exact_rounding example_services) = []"
    using e g by simp
  ultimately show ?thesis using h k f g by blast
qed

text \<open>
  One service, above the threshold: the insight names payments and investments, while the
  service above the threshold is Accounts Service.
\<close>

theorem prediction_affected_services_counterexample:
  "js_gt (avgResponseTime exact_rounding slow_services) (Fin 60) \<and>
   map affected_services (prediction_insights (generateAIInsights exact_rounding slow_services))
     = [[''payments'', ''investments'']] \<and>
   names_above_T1 slow_services = [''Accounts Service''] \<and>
   affected_services (prediction_insight exact_rounding) \<noteq> names_above_T1 slow_services"
  by (simp add: prediction_insights_result avgResponseTime_def js_len_def slow_services_def
      example_service_def prediction_insight_def names_above_T1_def above_T1_def
      exact_rounding_def)

section \<open>Alert lifecycle: capacity, keys, retention\<close>

lemma triggered_alert_exact_in_range:
  "service (triggered_alert exact_rounding c) \<in> set alert_services \<and>
   atype (triggered_alert exact_rounding c) \<in> set alertTypes \<and>
   message (triggered_alert exact_rounding c) \<in> set messages"
proof -
  have "random_index exact_rounding (service_draw c) (length alert_services) < length alert_services"
    "random_index exact_rounding (type_draw c) (length alertTypes) < length alertTypes"
    "random_index exact_rounding (message_draw c) (length messages) < length messages"
    by (rule random_index_exact_less, simp add: alert_services_def alertTypes_def messages_def)+
  then show ?thesis
    by (simp add: triggered_alert_def)
qed

lemma length_resolve_pass: "length (resolve_pass rd c k xs) = length xs"
  by (induction xs arbitrary: k) auto

lemma nth_resolve_pass:
  "i < length xs \<Longrightarrow>
   resolve_pass rd c k xs ! i
   = (if \<not> resolved (xs ! i) \<and> js_gt (Fin (draw_val (resolve_draw c (k + i)))) (rd 0.98)
      then (xs ! i)\<lparr>resolved := True\<rparr> else xs ! i)"
proof (induction xs arbitrary: k i)
  case Nil
  then show ?case by simp
next
  case (Cons x xs)
  show ?case
  proof (cases i)
    case 0
    then show ?thesis by simp
  next
    case (Suc j)
    with Cons.prems have "j < length xs" by simp
    from Cons.IH [OF this, of "Suc k"] Suc show ?thesis by simp
  qed
qed

lemma map_id_resolve_pass: "map alert_id (resolve_pass rd c k xs) = map alert_id xs"
  by (induction xs arbitrary: k) auto

lemma resolve_pass_quiet:
  "\<forall>j<length xs. \<not> js_gt (Fin (draw_val (resolve_draw c (k + j)))) (rd 0.98) \<Longrightarrow>
   resolve_pass rd c k xs = xs"
proof (induction xs arbitrary: k)
  case Nil
  then show ?case by simp
next
  case (Cons x xs)
  from Cons.prems have h: "\<not> js_gt (Fin (draw_val (resolve_draw c k))) (rd 0.98)"
    by force
  have t: "\<forall>j<length xs. \<not> js_gt (Fin (draw_val (resolve_draw c (Suc k + j)))) (rd 0.98)"
  proof (intro allI impI)
    fix j
    assume "j < length xs"
    then have "Suc j < length (x # xs)" by simp
    with Cons.prems have "\<not> js_gt (Fin (draw_val (resolve_draw c (k + Suc j)))) (rd 0.98)"
      by blast
    then show "\<not> js_gt (Fin (draw_val (resolve_draw c (Suc k + j)))) (rd 0.98)" by simp
  qed
  from Cons.IH [OF t] h show ?case by simp
qed

lemma unresolved_resolve_pass_le:
  "length (unresolved (resolve_pass rd c k xs)) \<le> length (unresolved xs)"
  by (induction xs arbitrary: k) (auto simp: unresolved_def le_SucI)

lemma unresolved_idem: "unresolved (unresolved alerts) = unresolved alerts"
  by (simp add: unresolved_def)

lemma generate_cases:
  "generateRealtimeData_alerts rd alerts c
   = (if trigger_passes rd c alerts
      then resolve_pass rd c 0 (unresolved alerts @ [triggered_alert rd c])
      else resolve_pass rd c 0 (unresolved alerts))"
  by (simp add: generateRealtimeData_alerts_def unresolved_def trigger_passes_def Let_def)

lemma length_generate_le:
  "length alerts \<le> 5 \<Longrightarrow> length (generateRealtimeData_alerts rd alerts c) \<le> 5"
proof -
  assume a: "length alerts \<le> 5"
  have "length (unresolved alerts) \<le> length alerts"
    by (simp add: unresolved_def)
  with a show ?thesis
    by (simp add: generate_cases length_resolve_pass trigger_passes_def)
qed

lemma length_run_cycles_le:
  "length alerts \<le> 5 \<Longrightarrow> length (run_cycles rd alerts cs) \<le> 5"
  by (induction cs arbitrary: alerts) (simp_all add: run_cycles_def length_generate_le)

lemma unresolved_le_length: "length (unresolved alerts) \<le> length alerts"
  by (simp add: unresolved_def)


text \<open>The states of the component: each is the result of one cycle from the empty array.\<close>

lemma alerts_after_cycles_last:
  "cs \<noteq> [] \<Longrightarrow> alerts_after_cycles rd cs = generateRealtimeData_alerts rd [] (last cs)"
proof (induction cs rule: rev_induct)
  case Nil
  then show ?case by simp
next
  case (snoc c cs)
  show ?case by (simp add: alerts_after_cycles_def)
qed

lemma alerts_after_cycles_run:
  "cs \<noteq> [] \<Longrightarrow> alerts_after_cycles rd cs = run_cycles rd [] [last cs]"
  by (simp add: alerts_after_cycles_last run_cycles_def)

lemma length_generate_from_empty: "length (generateRealtimeData_alerts rd [] c) \<le> 1"
  by (simp add: generate_cases length_resolve_pass unresolved_def)

lemma length_alerts_after_cycles: "length (alerts_after_cycles rd cs) \<le> 1"
proof (cases "cs = []")
  case True
  then show ?thesis by (simp add: alerts_after_cycles_def)
next
  case False
  then have "alerts_after_cycles rd cs = generateRealtimeData_alerts rd [] (last cs)"
    by (rule alerts_after_cycles_last)
  then show ?thesis
    using length_generate_from_empty [of rd "last cs"] by simp
qed

text \<open>
  Claim C7. After any sequence of cycles from the initial empty state, at most 5 alerts
  are unresolved, in the component and also when each cycle reads what the cycle before
  stored. In a cycle that reads 5 unresolved alerts no alert is added, whatever the
  trigger draw: the result holds exactly the alerts that were unresolved, its unresolved
  count does not exceed theirs, and it is equal to them when no resolution draw passes.
\<close>

theorem unresolved_alerts_capped:
  "length (unresolved (alerts_after_cycles rd cs)) \<le> 5 \<and>
   length (unresolved (run_cycles rd [] cs)) \<le> 5 \<and>
   (5 \<le> length (unresolved alerts) \<longrightarrow>
      map alert_id (generateRealtimeData_alerts rd alerts c) = map alert_id (unresolved alerts) \<and>
      length (unresolved (generateRealtimeData_alerts rd alerts c)) \<le> length (unresolved alerts) \<and>
      (no_resolution rd c (length (unresolved alerts)) \<longrightarrow>
         generateRealtimeData_alerts rd alerts c = unresolved alerts))"
proof -
  have "length (alerts_after_cycles rd cs) \<le> 1"
    by (rule length_alerts_after_cycles)
  then have wired: "length (unresolved (alerts_after_cycles rd cs)) \<le> 5"
    using unresolved_le_length [of "alerts_after_cycles rd cs"] by simp
  have "length (run_cycles rd [] cs) \<le> 5"
    by (rule length_run_cycles_le) simp
  then have reach: "length (unresolved (run_cycles rd [] cs)) \<le> 5"
    using unresolved_le_length [of "run_cycles rd [] cs"] by simp
  have full: "generateRealtimeData_alerts rd alerts c = resolve_pass rd c 0 (unresolved alerts)"
    if "5 \<le> length (unresolved alerts)"
    using that by (simp add: generate_cases trigger_passes_def)
  have quiet: "resolve_pass rd c 0 (unresolved alerts) = unresolved alerts"
    if "no_resolution rd c (length (unresolved alerts))"
    using that resolve_pass_quiet [of "unresolved alerts" c 0 rd]
    by (simp add: no_resolution_def list_all_iff)
  show ?thesis
  proof (cases "5 \<le> length (unresolved alerts)")
    case True
    have "length (unresolved (resolve_pass rd c 0 (unresolved alerts)))
          \<le> length (unresolved alerts)"
      using unresolved_resolve_pass_le [of rd c 0 "unresolved alerts"]
      by (simp add: unresolved_idem)
    with full [OF True] quiet reach wired show ?thesis
      by (simp add: map_id_resolve_pass)
  next
    case False
    with reach wired show ?thesis by simp
  qed
qed

theorem unresolved_alerts_capped_witness:
  "5 \<le> length (unresolved five_alerts) \<and> no_resolution exact_rounding firing_cycle_1 5 \<and>
   js_gt (Fin (draw_val (trigger_draw firing_cycle_1))) (exact_rounding 0.95) \<and>
   generateRealtimeData_alerts exact_rounding five_alerts firing_cycle_1 = five_alerts"
proof -
  have u: "unresolved five_alerts = five_alerts"
    by (simp add: unresolved_def five_alerts_def example_alert_def)
  have len: "length five_alerts = 5"
    by (simp add: five_alerts_def)
  have l: "5 \<le> length (unresolved five_alerts)"
    by (simp only: u len)
  have "[0..<5] = [0, 1, 2, 3, 4]"
    by (simp add: upt_rec)
  then have n: "no_resolution exact_rounding firing_cycle_1 5"
    by (simp add: no_resolution_def firing_cycle_1_def example_cycle_def draw_val_draw_of
        exact_rounding_def)
  have n': "no_resolution exact_rounding firing_cycle_1 (length (unresolved five_alerts))"
    using n by (simp only: u len)
  have t: "js_gt (Fin (draw_val (trigger_draw firing_cycle_1))) (exact_rounding 0.95)"
    by (simp add: firing_cycle_1_def example_cycle_def draw_val_draw_of exact_rounding_def)
  have "generateRealtimeData_alerts exact_rounding five_alerts firing_cycle_1
        = unresolved five_alerts"
    using unresolved_alerts_capped [of exact_rounding "[]" five_alerts firing_cycle_1] l n'
    by blast
  then have "generateRealtimeData_alerts exact_rounding five_alerts firing_cycle_1 = five_alerts"
    by (simp only: u)
  with l n t show ?thesis by blast
qed



text \<open>
  A cycle creates an alert and resolves it; the next cycle, which triggers nothing, stores
  a state without it, with one alert in the state.
\<close>

theorem resolved_alert_dropped_counterexample:
  "map alert_id (alerts_after_cycles exact_rounding [resolving_cycle]) = [''1700000000000''] \<and>
   map resolved (alerts_after_cycles exact_rounding [resolving_cycle]) = [True] \<and>
   alerts_after_cycles exact_rounding [resolving_cycle, quiet_cycle] = []"
  by (simp add: alerts_after_cycles_def generateRealtimeData_alerts_def triggered_alert_def
      resolving_cycle_def quiet_cycle_def example_cycle_def draw_val_draw_of
      exact_rounding_def)

lemma ids_generate:
  "map alert_id (generateRealtimeData_alerts rd alerts c)
   = map alert_id (unresolved alerts) @ (if trigger_passes rd c alerts then [date_now c] else [])"
  by (simp add: generate_cases map_id_resolve_pass triggered_alert_def)

lemma nth_generate_kept:
  assumes "i < length (unresolved alerts)"
  shows "generateRealtimeData_alerts rd alerts c ! i = unresolved alerts ! i \<or>
         generateRealtimeData_alerts rd alerts c ! i = (unresolved alerts ! i)\<lparr>resolved := True\<rparr>"
proof (cases "trigger_passes rd c alerts")
  case True
  have "i < length (unresolved alerts @ [triggered_alert rd c])"
    using assms by simp
  from nth_resolve_pass [OF this, of rd c 0] True assms show ?thesis
    by (simp add: generate_cases nth_append)
next
  case False
  from nth_resolve_pass [OF assms, of rd c 0] False show ?thesis
    by (simp add: generate_cases)
qed

lemma nth_generate_new:
  assumes "trigger_passes rd c alerts"
  shows "generateRealtimeData_alerts rd alerts c ! length (unresolved alerts) = triggered_alert rd c \<or>
         generateRealtimeData_alerts rd alerts c ! length (unresolved alerts)
           = (triggered_alert rd c)\<lparr>resolved := True\<rparr>"
proof -
  have "length (unresolved alerts) < length (unresolved alerts @ [triggered_alert rd c])"
    by simp
  from nth_resolve_pass [OF this, of rd c 0] assms show ?thesis
    by (simp add: generate_cases)
qed

lemma ids_after_next_cycle:
  "set (map alert_id (alerts_after_cycles rd (cs @ [c]))) \<subseteq> {date_now c}"
proof -
  have "alerts_after_cycles rd (cs @ [c]) = generateRealtimeData_alerts rd [] c"
    by (simp add: alerts_after_cycles_last)
  then show ?thesis
    by (auto simp: ids_generate unresolved_def)
qed

text \<open>
  Claim C8, as amended. From the alerts array it reads, a cycle carries over the unresolved
  alerts and nothing else: the ids of its result are the ids of the unresolved alerts
  read, in order, followed by the id of the triggered alert when the trigger passes; each
  alert carried over is unchanged or has its resolved flag set, and the last one is then
  the triggered alert, unchanged or resolved. The alerts read that were already resolved
  are left out, and with 5 or more unresolved alerts read nothing is added and nothing is
  evicted. In the component, an alert that is resolved in the state before a cycle is not
  in the state after it, unless the cycle creates an alert with the same id.
\<close>

theorem cycle_carries_unresolved_only:
  "map alert_id (generateRealtimeData_alerts rd alerts c)
     = map alert_id (unresolved alerts) @ (if trigger_passes rd c alerts then [date_now c] else []) \<and>
   (i < length (unresolved alerts) \<longrightarrow>
      generateRealtimeData_alerts rd alerts c ! i = unresolved alerts ! i \<or>
      generateRealtimeData_alerts rd alerts c ! i = (unresolved alerts ! i)\<lparr>resolved := True\<rparr>) \<and>
   (trigger_passes rd c alerts \<longrightarrow>
      generateRealtimeData_alerts rd alerts c ! length (unresolved alerts) = triggered_alert rd c \<or>
      generateRealtimeData_alerts rd alerts c ! length (unresolved alerts)
        = (triggered_alert rd c)\<lparr>resolved := True\<rparr>) \<and>
   (5 \<le> length (unresolved alerts) \<longrightarrow> \<not> trigger_passes rd c alerts) \<and>
   (b \<in> set alerts \<and> resolved b \<and> alert_id b \<notin> set (map alert_id (unresolved alerts)) \<and>
    alert_id b \<noteq> date_now c \<longrightarrow>
      alert_id b \<notin> set (map alert_id (generateRealtimeData_alerts rd alerts c))) \<and>
   (a \<in> set (alerts_after_cycles rd cs) \<and> resolved a \<and> alert_id a \<noteq> date_now c \<longrightarrow>
      alert_id a \<notin> set (map alert_id (alerts_after_cycles rd (cs @ [c]))))"
proof -
  have d: "alert_id a \<notin> set (map alert_id (alerts_after_cycles rd (cs @ [c])))"
    if "alert_id a \<noteq> date_now c"
    using that ids_after_next_cycle [of rd cs c] by blast
  have e: "\<not> trigger_passes rd c alerts" if "5 \<le> length (unresolved alerts)"
    using that by (simp add: trigger_passes_def)
  have f: "alert_id b \<notin> set (map alert_id (generateRealtimeData_alerts rd alerts c))"
    if "alert_id b \<notin> set (map alert_id (unresolved alerts))" "alert_id b \<noteq> date_now c"
    using that by (simp add: ids_generate)
  from d e f ids_generate [of rd alerts c] nth_generate_kept [of i alerts rd c]
    nth_generate_new [of rd c alerts]
  show ?thesis by blast
qed


theorem cycle_carries_unresolved_only_witness:
  "0 < length (unresolved mixed_alerts) \<and>
   trigger_passes exact_rounding resolving_cycle mixed_alerts \<and>
   map alert_id (generateRealtimeData_alerts exact_rounding mixed_alerts resolving_cycle)
     = [''1'', ''1700000000000''] \<and>
   generateRealtimeData_alerts exact_rounding mixed_alerts resolving_cycle ! 0
     = (unresolved mixed_alerts ! 0)\<lparr>resolved := True\<rparr> \<and>
   example_alert ''2'' True \<in> set mixed_alerts \<and> resolved (example_alert ''2'' True) \<and>
   alert_id (example_alert ''2'' True) \<notin> set (map alert_id (unresolved mixed_alerts)) \<and>
   alert_id (example_alert ''2'' True) \<noteq> date_now resolving_cycle \<and>
   alert_id (example_alert ''2'' True)
     \<notin> set (map alert_id (generateRealtimeData_alerts exact_rounding mixed_alerts resolving_cycle)) \<and>
   resolved_created \<in> set (alerts_after_cycles exact_rounding [resolving_cycle]) \<and>
   resolved resolved_created \<and> alert_id resolved_created \<noteq> date_now quiet_cycle \<and>
   alert_id resolved_created
     \<notin> set (map alert_id (alerts_after_cycles exact_rounding ([resolving_cycle] @ [quiet_cycle])))"
proof -
  have u: "unresolved mixed_alerts = [example_alert ''1'' False]"
    by (simp add: unresolved_def mixed_alerts_def example_alert_def)
  have a: "0 < length (unresolved mixed_alerts)"
    by (simp add: u)
  have b: "trigger_passes exact_rounding resolving_cycle mixed_alerts"
    by (simp add: trigger_passes_def u resolving_cycle_def example_cycle_def draw_val_draw_of
        exact_rounding_def)
  have dn: "date_now resolving_cycle = ''1700000000000''"
    by (simp add: resolving_cycle_def example_cycle_def)
  note t = cycle_carries_unresolved_only
    [where rd = exact_rounding and alerts = mixed_alerts and c = resolving_cycle and i = 0]
  have "map alert_id (generateRealtimeData_alerts exact_rounding mixed_alerts resolving_cycle)
        = map alert_id (unresolved mixed_alerts) @ [date_now resolving_cycle]"
    using t b by simp
  then have ids: "map alert_id (generateRealtimeData_alerts exact_rounding mixed_alerts resolving_cycle)
        = [''1'', ''1700000000000'']"
    by (simp add: u dn example_alert_def)
  have ne: "generateRealtimeData_alerts exact_rounding mixed_alerts resolving_cycle ! 0
            \<noteq> unresolved mixed_alerts ! 0"
    by (simp add: generateRealtimeData_alerts_def mixed_alerts_def example_alert_def
        unresolved_def resolving_cycle_def example_cycle_def draw_val_draw_of exact_rounding_def)
  have fl: "generateRealtimeData_alerts exact_rounding mixed_alerts resolving_cycle ! 0
            = (unresolved mixed_alerts ! 0)\<lparr>resolved := True\<rparr>"
    using t a ne by blast
  have m: "resolved_created \<in> set (alerts_after_cycles exact_rounding [resolving_cycle])"
    by (simp add: resolved_created_def alerts_after_cycles_def generateRealtimeData_alerts_def
        resolving_cycle_def example_cycle_def draw_val_draw_of exact_rounding_def
        triggered_alert_def)
  have r: "resolved resolved_created"
    by (simp add: resolved_created_def)
  have d: "alert_id resolved_created \<noteq> date_now quiet_cycle"
    by (simp add: resolved_created_def triggered_alert_def resolving_cycle_def quiet_cycle_def
        example_cycle_def)
  have g: "alert_id resolved_created
           \<notin> set (map alert_id (alerts_after_cycles exact_rounding ([resolving_cycle] @ [quiet_cycle])))"
    using cycle_carries_unresolved_only
      [where rd = exact_rounding and c = quiet_cycle and a = resolved_created
         and cs = "[resolving_cycle]"] m r d
    by blast
  have k: "example_alert ''2'' True \<in> set mixed_alerts" "resolved (example_alert ''2'' True)"
    "alert_id (example_alert ''2'' True) \<notin> set (map alert_id (unresolved mixed_alerts))"
    "alert_id (example_alert ''2'' True) \<noteq> date_now resolving_cycle"
    by (simp_all add: dn mixed_alerts_def example_alert_def unresolved_def)
  have x: "alert_id (example_alert ''2'' True)
     \<notin> set (map alert_id (generateRealtimeData_alerts exact_rounding mixed_alerts resolving_cycle))"
    using cycle_carries_unresolved_only
      [where rd = exact_rounding and alerts = mixed_alerts and c = resolving_cycle
         and b = "example_alert ''2'' True"] k
    by blast
  from a b ids fl m r d g k x show ?thesis by blast
qed

section \<open>Resolving an alert by id\<close>

lemma filter_update_drop:
  "k < length xs \<Longrightarrow> P (xs ! k) \<Longrightarrow> \<not> P y \<Longrightarrow>
   Suc (length (filter P (xs[k := y]))) = length (filter P xs)"
proof (induction xs arbitrary: k)
  case Nil
  then show ?case by simp
next
  case (Cons x xs)
  then show ?case by (cases k) auto
qed

lemma resolveAlert_unknown:
  "i \<notin> set (map alert_id alerts) \<Longrightarrow> resolveAlert i alerts = alerts"
  by (induction alerts) (auto simp: resolveAlert_def)

lemma resolveAlert_known:
  assumes "distinct (map alert_id alerts)" and "k < length alerts"
    and "alert_id (alerts ! k) = i"
  shows "resolveAlert i alerts = alerts[k := (alerts ! k)\<lparr>resolved := True\<rparr>]"
proof (rule nth_equalityI)
  show "length (resolveAlert i alerts) = length (alerts[k := (alerts ! k)\<lparr>resolved := True\<rparr>])"
    by (simp add: resolveAlert_def)
next
  fix j
  assume "j < length (resolveAlert i alerts)"
  then have j: "j < length alerts"
    by (simp add: resolveAlert_def)
  show "resolveAlert i alerts ! j = alerts[k := (alerts ! k)\<lparr>resolved := True\<rparr>] ! j"
  proof (cases "j = k")
    case True
    with assms j show ?thesis
      by (simp add: resolveAlert_def)
  next
    case False
    have "j < length (map alert_id alerts)" "k < length (map alert_id alerts)"
      using assms(2) j by simp_all
    with assms(1) False have "map alert_id alerts ! j \<noteq> map alert_id alerts ! k"
      by (simp only: nth_eq_iff_index_eq not_False_eq_True)
    then have "alert_id (alerts ! j) \<noteq> i"
      using assms(2,3) j by simp
    with False j show ?thesis
      by (simp add: resolveAlert_def)
  qed
qed

text \<open>
  Claim C9. In an alert set with unique ids, resolving the id of an unresolved alert sets
  the resolved flag of that alert and changes no other alert, and the number of unresolved
  alerts goes down by one; resolving an id that no alert has leaves the set unchanged.
\<close>

theorem resolveAlert_round_trip:
  assumes "distinct (map alert_id alerts)"
  shows "(k < length alerts \<and> alert_id (alerts ! k) = i \<and> \<not> resolved (alerts ! k) \<longrightarrow>
           resolveAlert i alerts = alerts[k := (alerts ! k)\<lparr>resolved := True\<rparr>] \<and>
           Suc (length (unresolved (resolveAlert i alerts))) = length (unresolved alerts)) \<and>
         (i \<notin> set (map alert_id alerts) \<longrightarrow> resolveAlert i alerts = alerts)"
proof -
  have "resolveAlert i alerts = alerts[k := (alerts ! k)\<lparr>resolved := True\<rparr>] \<and>
        Suc (length (unresolved (resolveAlert i alerts))) = length (unresolved alerts)"
    if k: "k < length alerts" and id: "alert_id (alerts ! k) = i" and u: "\<not> resolved (alerts ! k)"
  proof -
    have eq: "resolveAlert i alerts = alerts[k := (alerts ! k)\<lparr>resolved := True\<rparr>]"
      using assms k id by (rule resolveAlert_known)
    have "Suc (length (filter (\<lambda>a. \<not> resolved a) (alerts[k := (alerts ! k)\<lparr>resolved := True\<rparr>])))
          = length (filter (\<lambda>a. \<not> resolved a) alerts)"
      using k u by (intro filter_update_drop) simp_all
    with eq show ?thesis
      by (simp add: unresolved_def)
  qed
  then show ?thesis
    using resolveAlert_unknown [of i alerts] by blast
qed

theorem resolveAlert_round_trip_witness:
  "distinct (map alert_id five_alerts) \<and> 2 < length five_alerts \<and>
   alert_id (five_alerts ! 2) = ''3'' \<and> \<not> resolved (five_alerts ! 2) \<and>
   resolveAlert ''3'' five_alerts = five_alerts[2 := example_alert ''3'' True] \<and>
   length (unresolved (resolveAlert ''3'' five_alerts)) = 4 \<and>
   ''9'' \<notin> set (map alert_id five_alerts) \<and>
   resolveAlert ''9'' five_alerts = five_alerts"
proof -
  have d: "distinct (map alert_id five_alerts)"
    by (simp add: five_alerts_def example_alert_def)
  have h: "2 < length five_alerts" "alert_id (five_alerts ! 2) = ''3''"
    "\<not> resolved (five_alerts ! 2)"
    by (simp_all add: five_alerts_def example_alert_def)
  have n: "''9'' \<notin> set (map alert_id five_alerts)"
    by (simp add: five_alerts_def example_alert_def)
  have v: "(five_alerts ! 2)\<lparr>resolved := True\<rparr> = example_alert ''3'' True"
    by (simp add: five_alerts_def example_alert_def)
  have l: "length (unresolved five_alerts) = 5"
    by (simp add: unresolved_def five_alerts_def example_alert_def)
  have r: "resolveAlert ''3'' five_alerts = five_alerts[2 := (five_alerts ! 2)\<lparr>resolved := True\<rparr>] \<and>
           Suc (length (unresolved (resolveAlert ''3'' five_alerts))) = length (unresolved five_alerts)"
    using resolveAlert_round_trip [OF d, of 2 "''3''"] h by blast
  have u: "resolveAlert ''9'' five_alerts = five_alerts"
    using resolveAlert_round_trip [OF d, of 0 "''9''"] n by blast
  from r have ra: "resolveAlert ''3'' five_alerts
                   = five_alerts[2 := (five_alerts ! 2)\<lparr>resolved := True\<rparr>]"
    and rb: "Suc (length (unresolved (resolveAlert ''3'' five_alerts)))
             = length (unresolved five_alerts)"
    by blast+
  from ra have r1: "resolveAlert ''3'' five_alerts = five_alerts[2 := example_alert ''3'' True]"
    by (simp only: v)
  from rb have "Suc (length (unresolved (resolveAlert ''3'' five_alerts))) = 5"
    by (simp only: l)
  then have r2: "length (unresolved (resolveAlert ''3'' five_alerts)) = 4"
    by simp
  from d h n u r1 r2 show ?thesis by blast
qed

end
